theory Spec2Isabelle
  imports Complex_Main "HOL-Library.Word"
begin

unbundle bit_operations_syntax

section \<open>IEEE 754 double arithmetic\<close>

text \<open>
  A JavaScript number is a binary64 value: a real of the form \<open>m * 2^k\<close> with
  \<open>\<bar>m\<bar> < 2^53\<close>, \<open>k \<ge> -1074\<close> and magnitude below \<open>2^1024\<close>, or one of
  \<open>Infinity\<close>, \<open>-Infinity\<close> and \<open>NaN\<close>. \<open>Finite x\<close> stands for a binary64 value
  \<open>x\<close>; every operation below returns such values only. The two zeros are one value:
  the program never divides by a zero that could be negative, and no other operation
  it uses tells them apart.
\<close>

datatype double = Finite real | PInf | NInf | NaN

definition emin :: int where "emin = - 1022"

definition emax :: int where "emax = 1023"

text \<open>
  The binary exponent used to round \<open>x\<close>: the largest \<open>e\<close> in \<open>[-1022, 1023]\<close> with
  \<open>2^e \<le> \<bar>x\<bar>\<close>, and \<open>-1022\<close> for the subnormal range and zero.
\<close>

definition expo :: "real \<Rightarrow> int" where
  "expo x =
     (case List.find (\<lambda>e. 2 powi e \<le> \<bar>x\<bar>) (rev [emin..emax]) of
        Some e \<Rightarrow> e
      | None \<Rightarrow> emin)"

text \<open>Rounding to the nearest integer, halves to the even one.\<close>

definition rne :: "real \<Rightarrow> int" where
  "rne q =
     (let f = \<lfloor>q\<rfloor>
      in if q - of_int f < 1 / 2 then f
         else if 1 / 2 < q - of_int f then f + 1
         else if even f then f else f + 1)"

text \<open>
  Rounding a real to binary64, to nearest, ties to even: the significand is rounded to
  an integer multiple of the unit in the last place \<open>2^(e - 52)\<close>; a result of magnitude
  \<open>2^1024\<close> is an overflow.
\<close>

definition fl :: "real \<Rightarrow> double" where
  "fl x =
     (let u = 2 powi (expo x - 52);
          y = of_int (rne (x / u)) * u
      in if 2 powi 1024 \<le> y then PInf
         else if y \<le> - (2 powi 1024) then NInf
         else Finite y)"

text \<open>The operators \<open>-\<close>, \<open>*\<close> and \<open>/\<close> on numbers.\<close>

fun dsub :: "double \<Rightarrow> double \<Rightarrow> double" where
  "dsub (Finite a) (Finite b) = fl (a - b)"
| "dsub NaN _ = NaN"
| "dsub _ NaN = NaN"
| "dsub PInf PInf = NaN"
| "dsub NInf NInf = NaN"
| "dsub PInf _ = PInf"
| "dsub NInf _ = NInf"
| "dsub _ PInf = NInf"
| "dsub _ NInf = PInf"

fun dmul :: "double \<Rightarrow> double \<Rightarrow> double" where
  "dmul (Finite a) (Finite b) = fl (a * b)"
| "dmul NaN _ = NaN"
| "dmul _ NaN = NaN"
| "dmul (Finite a) PInf = (if a = 0 then NaN else if 0 < a then PInf else NInf)"
| "dmul (Finite a) NInf = (if a = 0 then NaN else if 0 < a then NInf else PInf)"
| "dmul PInf (Finite b) = (if b = 0 then NaN else if 0 < b then PInf else NInf)"
| "dmul NInf (Finite b) = (if b = 0 then NaN else if 0 < b then NInf else PInf)"
| "dmul PInf PInf = PInf"
| "dmul PInf NInf = NInf"
| "dmul NInf PInf = NInf"
| "dmul NInf NInf = PInf"

text \<open>A zero divisor is the positive zero (an element size).\<close>

fun ddiv :: "double \<Rightarrow> double \<Rightarrow> double" where
  "ddiv (Finite a) (Finite b) =
     (if b = 0 then (if a = 0 then NaN else if 0 < a then PInf else NInf) else fl (a / b))"
| "ddiv NaN _ = NaN"
| "ddiv _ NaN = NaN"
| "ddiv (Finite a) _ = Finite 0"
| "ddiv PInf (Finite b) = (if 0 \<le> b then PInf else NInf)"
| "ddiv NInf (Finite b) = (if 0 \<le> b then NInf else PInf)"
| "ddiv _ _ = NaN"

text \<open>The comparisons \<open><\<close> and \<open><=\<close>: false as soon as one side is \<open>NaN\<close>.\<close>

fun dless :: "double \<Rightarrow> double \<Rightarrow> bool" where
  "dless (Finite a) (Finite b) = (a < b)"
| "dless NaN _ = False"
| "dless _ NaN = False"
| "dless NInf NInf = False"
| "dless NInf _ = True"
| "dless _ NInf = False"
| "dless PInf _ = False"
| "dless _ PInf = True"

fun dle :: "double \<Rightarrow> double \<Rightarrow> bool" where
  "dle (Finite a) (Finite b) = (a \<le> b)"
| "dle NaN _ = False"
| "dle _ NaN = False"
| "dle NInf _ = True"
| "dle _ PInf = True"
| "dle _ _ = False"

text \<open>\<open>Math.abs\<close>, \<open>Math.round\<close> (halves go up), \<open>Math.min\<close> and \<open>Math.max\<close>.\<close>

fun dabs :: "double \<Rightarrow> double" where
  "dabs (Finite a) = Finite \<bar>a\<bar>"
| "dabs PInf = PInf"
| "dabs NInf = PInf"
| "dabs NaN = NaN"

fun dround :: "double \<Rightarrow> double" where
  "dround (Finite a) = Finite (of_int \<lfloor>a + 1 / 2\<rfloor>)"
| "dround PInf = PInf"
| "dround NInf = NInf"
| "dround NaN = NaN"

definition dmin :: "double \<Rightarrow> double \<Rightarrow> double" where
  "dmin a b = (if a = NaN \<or> b = NaN then NaN else if dle a b then a else b)"

definition dmax :: "double \<Rightarrow> double \<Rightarrow> double" where
  "dmax a b = (if a = NaN \<or> b = NaN then NaN else if dle a b then b else a)"

text \<open>
  An element size of the DOM (\<open>offsetWidth\<close>, \<open>naturalWidth\<close>, ...) is a non-negative
  32-bit integer; as a number it is exact.
\<close>

definition num32 :: "32 word \<Rightarrow> double" where
  "num32 w = Finite (real (unat w))"

section \<open>Data model\<close>

text \<open>
  The spectral library is the parsed JSON document. Every key may be missing
  (\<open>None\<close> is JavaScript's \<open>undefined\<close>/\<open>null\<close>), and a table may hold a
  \<open>null\<close> row: the source guards each of these with \<open>!x\<close>, \<open>x ? .. : ..\<close> or
  \<open>x || []\<close>. The angle axes, on which the program computes, are lists of doubles;
  wavelengths and intensities are only moved around and are kept as reals.
\<close>

type_synonym spectrum = "real list"

type_synonym spectral_table = "spectrum option list"

record library =
  wavelength :: "real list option"
  inc :: "double list option"
  emi :: "double list option"
  daz :: "double list option"
  standard :: "spectral_table option"
  no_ch4 :: "spectral_table option"
  no_haze :: "spectral_table option"

section \<open>Angle matcher (dataProcessing: findClosestAngleIndex)\<close>

text \<open>\<open>Array.prototype.findIndex\<close>; \<open>None\<close> stands for the result \<open>-1\<close>.\<close>

fun findIndex :: "('a \<Rightarrow> bool) \<Rightarrow> 'a list \<Rightarrow> nat option" where
  "findIndex p [] = None"
| "findIndex p (x # xs) = (if p x then Some 0 else map_option Suc (findIndex p xs))"

text \<open>
  The loop \<open>for (let i = 1; i < angleArray.length; i++)\<close> with its two locals
  \<open>closestIndex\<close> and \<open>minDiff\<close>.
\<close>

function closestLoop :: "double list \<Rightarrow> double \<Rightarrow> nat \<Rightarrow> nat \<Rightarrow> double \<Rightarrow> nat" where
  "closestLoop angleArray targetAngle i closestIndex minDiff =
     (if i < length angleArray then
        (let diff = dabs (dsub (angleArray ! i) targetAngle) in
         if dless diff minDiff
         then closestLoop angleArray targetAngle (i + 1) i diff
         else closestLoop angleArray targetAngle (i + 1) closestIndex minDiff)
      else closestIndex)"
  by pat_completeness auto
termination
  by (relation "measure (\<lambda>(a, t, i, c, m). length a - i)") auto

declare closestLoop.simps [simp del]

text \<open>The literal \<open>1e-6\<close> is the double nearest to \<open>10^-6\<close>.\<close>

definition findClosestAngleIndex :: "double list option \<Rightarrow> double \<Rightarrow> nat" where
  "findClosestAngleIndex angleArray targetAngle =
     (case angleArray of
        None \<Rightarrow> 0
      | Some a \<Rightarrow>
          if length a = 0 then 0
          else (case findIndex (\<lambda>angle. dless (dabs (dsub angle targetAngle)) (fl (1 / 10 ^ 6))) a of
                  Some exactIndex \<Rightarrow> exactIndex
                | None \<Rightarrow> closestLoop a targetAngle 1 0 (dabs (dsub (a ! 0) targetAngle))))"

section \<open>Spectral index resolver (dataProcessing: processSpectralData, createSpectralPlotData)\<close>

record processed = library +
  angleCombinations :: "(double \<times> double \<times> double \<times> nat) list"

text \<open>
  \<open>processSpectralData\<close> passes the seven keys through and adds the list of
  angle combinations (incidence, emission, azimuth, index) built by the triple loop.
\<close>

definition processSpectralData :: "library option \<Rightarrow> processed option" where
  "processSpectralData spectralData =
     (case spectralData of
        None \<Rightarrow> None
      | Some d \<Rightarrow>
          Some \<lparr>wavelength = wavelength d, inc = inc d, emi = emi d, daz = daz d,
                standard = standard d, no_ch4 = no_ch4 d, no_haze = no_haze d,
                angleCombinations =
                  (case (inc d, emi d, daz d) of
                     (Some is, Some es, Some ds) \<Rightarrow>
                       [(is ! i, es ! j, ds ! k, i * length es * length ds + j * length ds + k).
                          i \<leftarrow> [0..<length is], j \<leftarrow> [0..<length es], k \<leftarrow> [0..<length ds]]
                   | _ \<Rightarrow> [])\<rparr>)"

text \<open>
  The local \<open>angleIndex\<close> of \<open>createSpectralPlotData\<close>: three runs of the angle
  matcher (index 0 for a missing axis), the axis lengths (1 for a missing axis), and
  the flat row index.
\<close>

definition angleIndex :: "processed \<Rightarrow> double \<Rightarrow> double \<Rightarrow> double \<Rightarrow> nat" where
  "angleIndex pd incidenceAngle emissionAngle azimuthAngle =
     (let incidenceIndex =
            (case inc pd of None \<Rightarrow> 0 | Some _ \<Rightarrow> findClosestAngleIndex (inc pd) incidenceAngle);
          emissionIndex =
            (case emi pd of None \<Rightarrow> 0 | Some _ \<Rightarrow> findClosestAngleIndex (emi pd) emissionAngle);
          azimuthIndex =
            (case daz pd of None \<Rightarrow> 0 | Some _ \<Rightarrow> findClosestAngleIndex (daz pd) azimuthAngle);
          emissionLength = (case emi pd of None \<Rightarrow> 1 | Some e \<Rightarrow> length e);
          azimuthLength = (case daz pd of None \<Rightarrow> 1 | Some d \<Rightarrow> length d)
      in incidenceIndex * emissionLength * azimuthLength +
         emissionIndex * azimuthLength +
         azimuthIndex)"

text \<open>
  The expression \<open>table && table[row] ? table[row] : []\<close>: the table may be missing,
  the index may lie outside it, the row may be \<open>null\<close>; an array (even an empty one)
  is truthy.
\<close>

definition rowOrEmpty :: "spectral_table option \<Rightarrow> nat \<Rightarrow> spectrum" where
  "rowOrEmpty table row =
     (case table of
        None \<Rightarrow> []
      | Some t \<Rightarrow>
          if row < length t then (case t ! row of None \<Rightarrow> [] | Some spectrum \<Rightarrow> spectrum)
          else [])"

text \<open>The \<open>switch (caseType)\<close> that fills the local \<open>spectralValues\<close>.\<close>

definition spectralValues :: "processed \<Rightarrow> nat \<Rightarrow> string \<Rightarrow> spectrum" where
  "spectralValues pd row caseType =
     (if caseType = ''standard'' then rowOrEmpty (standard pd) row
      else if caseType = ''no_ch4'' then rowOrEmpty (no_ch4 pd) row
      else if caseType = ''no_haze'' then rowOrEmpty (no_haze pd) row
      else rowOrEmpty (standard pd) row)"

text \<open>
  A plot point is the pair (wavelength, intensity); \<open>spectralValues[i] || 0\<close> is 0
  past the end of the row.
\<close>

definition createSpectralPlotData ::
  "processed option \<Rightarrow> double \<Rightarrow> double \<Rightarrow> double \<Rightarrow> string \<Rightarrow> (real \<times> real) list" where
  "createSpectralPlotData processedData incidenceAngle emissionAngle azimuthAngle caseType =
     (case processedData of
        None \<Rightarrow> []
      | Some pd \<Rightarrow>
          (case wavelength pd of
             None \<Rightarrow> []
           | Some w \<Rightarrow>
               (let values =
                      spectralValues pd
                        (angleIndex pd incidenceAngle emissionAngle azimuthAngle) caseType
                in map (\<lambda>i. (w ! i, if i < length values then values ! i else 0))
                     [0..<length w])))"

section \<open>Spectral sampler (dataLoader: sampleData)\<close>

text \<open>
  \<open>step = Math.max(1, Math.floor(wavelength.length / maxPoints))\<close>. For a non-zero
  integer \<open>maxPoints\<close> the floor of the quotient is the integer quotient. For
  \<open>maxPoints = 0\<close> the quotient is \<open>Infinity\<close> (or \<open>NaN\<close> for an empty axis), and
  so is the step.
\<close>

datatype step = Step nat | NonFinite

definition samplingStep :: "nat \<Rightarrow> int \<Rightarrow> step" where
  "samplingStep n maxPoints =
     (if maxPoints = 0 then NonFinite else Step (nat (max 1 (int n div maxPoints))))"

text \<open>
  The loop \<open>for (let i = 0; i < xs.length; i += step) sampled.push(xs[i])\<close> from
  index \<open>i\<close> on. The step is at least 1 in every call; the test \<open>0 < step\<close> only
  makes the recursion well-founded.
\<close>

function strided :: "'a list \<Rightarrow> nat \<Rightarrow> nat \<Rightarrow> 'a list" where
  "strided xs step i =
     (if i < length xs \<and> 0 < step then xs ! i # strided xs step (i + step) else [])"
  by pat_completeness auto
termination
  by (relation "measure (\<lambda>(xs, step, i). length xs - i)") auto

declare strided.simps [simp del]

text \<open>
  With a step of \<open>Infinity\<close> or \<open>NaN\<close> the loop runs once on a non-empty array
  (\<open>i\<close> becomes \<open>Infinity\<close> or \<open>NaN\<close> and the test \<open>i < xs.length\<close> fails).
\<close>

definition sampleLoop :: "'a list \<Rightarrow> step \<Rightarrow> 'a list" where
  "sampleLoop xs st = (case st of Step s \<Rightarrow> strided xs s 0 | NonFinite \<Rightarrow> take 1 xs)"

definition sampleSpectralArray :: "step \<Rightarrow> spectral_table option \<Rightarrow> spectral_table" where
  "sampleSpectralArray st spectralArray =
     (case spectralArray of
        None \<Rightarrow> []
      | Some rows \<Rightarrow>
          map (\<lambda>spectrum. case spectrum of
                             None \<Rightarrow> Some []
                           | Some sp \<Rightarrow> Some (sampleLoop sp st)) rows)"

text \<open>\<open>[...new Set(xs)]\<close>: the distinct values in order of first occurrence.\<close>

fun uniqueFrom :: "'a list \<Rightarrow> 'a list \<Rightarrow> 'a list" where
  "uniqueFrom seen [] = seen"
| "uniqueFrom seen (x # xs) = uniqueFrom (if x \<in> set seen then seen else seen @ [x]) xs"

definition unique :: "'a list option \<Rightarrow> 'a list" where
  "unique xs = uniqueFrom [] (case xs of None \<Rightarrow> [] | Some ys \<Rightarrow> ys)"

definition sampleData :: "library option \<Rightarrow> int \<Rightarrow> library option" where
  "sampleData data maxPoints =
     (case data of
        None \<Rightarrow> None
      | Some d \<Rightarrow>
          (case wavelength d of
             None \<Rightarrow> Some d
           | Some w \<Rightarrow>
               (let st = samplingStep (length w) maxPoints;
                    sampled = sampleLoop w st;
                    sampledWavelength =
                      (if int (length sampled) < maxPoints \<and> length w > 0
                       then sampled @ [w ! (length w - 1)] else sampled)
                in Some \<lparr>wavelength = Some sampledWavelength,
                         inc = Some (unique (inc d)),
                         emi = Some (unique (emi d)),
                         daz = Some (unique (daz d)),
                         standard = Some (sampleSpectralArray st (standard d)),
                         no_ch4 = Some (sampleSpectralArray st (no_ch4 d)),
                         no_haze = Some (sampleSpectralArray st (no_haze d))\<rparr>)))"

section \<open>Geo-cube decoder (geoCubeLoader: parseGeoCube, getGeoValue, extractGeoValues)\<close>

text \<open>
  An \<open>ArrayBuffer\<close> is a list of bytes. A decoded 32-bit float is kept as its bit
  pattern: the decoder and the lookup only move these values around.
\<close>

type_synonym byte = "8 word"

type_synonym float32 = "32 word"

datatype js_error = RangeError | Error string

definition numBands :: nat where "numBands = 9"

definition numLines :: nat where "numLines = 681"

definition numSamples :: nat where "numSamples = 681"

definition totalElements :: nat where "totalElements = numBands * numLines * numSamples"

text \<open>
  \<open>DataView.getFloat32(byteOffset, true)\<close>: little-endian, and a \<open>RangeError\<close> when
  the four bytes do not lie inside the view.
\<close>

definition getFloat32 :: "byte list \<Rightarrow> nat \<Rightarrow> js_error + float32" where
  "getFloat32 view byteOffset =
     (if byteOffset + 4 > length view then Inl RangeError
      else Inr (ucast (view ! byteOffset)
                OR push_bit 8 (ucast (view ! (byteOffset + 1)))
                OR push_bit 16 (ucast (view ! (byteOffset + 2)))
                OR push_bit 24 (ucast (view ! (byteOffset + 3)))))"

text \<open>
  The loop \<open>for (let i = 0; i < totalElements; i++) data[i] = view.getFloat32(i * 4, true)\<close>;
  an exception leaves the loop and the function. \<open>n\<close> is \<open>totalElements\<close>.
\<close>

function parseLoop :: "byte list \<Rightarrow> nat \<Rightarrow> nat \<Rightarrow> float32 list \<Rightarrow> js_error + float32 list" where
  "parseLoop view n i data =
     (if i < n then
        (case getFloat32 view (i * 4) of
           Inl e \<Rightarrow> Inl e
         | Inr v \<Rightarrow> parseLoop view n (i + 1) (data[i := v]))
      else Inr data)"
  by pat_completeness auto
termination
  by (relation "measure (\<lambda>(view, n, i, data). n - i)") auto

declare parseLoop.simps [simp del]

text \<open>\<open>new Float32Array(totalElements)\<close> is filled with zeros.\<close>

definition parseGeoCube :: "byte list \<Rightarrow> js_error + float32 list" where
  "parseGeoCube buffer = parseLoop buffer totalElements 0 (replicate totalElements 0)"

text \<open>\<open>getGeoValue\<close>; \<open>None\<close> is the result \<open>null\<close>.\<close>

definition getGeoValue :: "float32 list \<Rightarrow> real \<Rightarrow> real \<Rightarrow> real \<Rightarrow> float32 option" where
  "getGeoValue geoCubeData x y band =
     (let clampedX = max 0 (min \<lfloor>x\<rfloor> (int numSamples - 1));
          clampedY = max 0 (min \<lfloor>y\<rfloor> (int numLines - 1));
          clampedBand = max 0 (min \<lfloor>band\<rfloor> (int numBands - 1));
          index = clampedBand * int numLines * int numSamples + clampedY * int numSamples + clampedX
      in if index < 0 \<or> index \<ge> int (length geoCubeData) then None
         else Some (geoCubeData ! nat index))"

text \<open>
  The object \<open>extractGeoValues\<close> returns is a map from its keys to their values; a key
  outside the domain reads as \<open>undefined\<close>. The fetch of \<open>loadGeoCubeFile\<close> is the
  function's input: the buffer, or the error the fetch threw. The \<open>try\<close>/\<open>catch\<close>
  turns every error into the all-\<open>null\<close> object with the error's message.
\<close>

datatype jsval = Float float32 | Number real | Null | Message js_error

definition orNull :: "float32 option \<Rightarrow> jsval" where
  "orNull v = (case v of None \<Rightarrow> Null | Some f \<Rightarrow> Float f)"

definition extractGeoValues :: "js_error + byte list \<Rightarrow> real \<Rightarrow> real \<Rightarrow> (string \<rightharpoonup> jsval)" where
  "extractGeoValues fetched x y =
     (case (case fetched of Inl e \<Rightarrow> Inl e | Inr buffer \<Rightarrow> parseGeoCube buffer) of
        Inr geoData \<Rightarrow>
          (let lat = getGeoValue geoData x y 0;
               lon = getGeoValue geoData x y 1;
               phase = getGeoValue geoData x y 4;
               incidence = getGeoValue geoData x y 5;
               emis = getGeoValue geoData x y 6
           in map_of [(''lat'', orNull lat), (''lon'', orNull lon), (''phase'', orNull phase),
                      (''incidence'', orNull incidence), (''emis'', orNull emis),
                      (''x'', Number x), (''y'', Number y)])
      | Inl error \<Rightarrow>
          map_of [(''lat'', Null), (''lon'', Null), (''phase'', Null),
                  (''incidence'', Null), (''emis'', Null),
                  (''x'', Number x), (''y'', Number y), (''error'', Message error)])"

section \<open>Coordinate mapper (ClickableImage: handleImageClick)\<close>

text \<open>
  The element measurements are inputs: the four sizes of the image, and the pointer and
  rectangle coordinates, which are doubles. All arithmetic is double arithmetic.
\<close>

record marker =
  displayX :: double
  displayY :: double
  naturalX :: double
  naturalY :: double

record image =
  offsetWidth :: "32 word"
  offsetHeight :: "32 word"
  naturalWidth :: "32 word"
  naturalHeight :: "32 word"

record click =
  clientX :: double
  clientY :: double
  rectLeft :: double
  rectTop :: double
  imgRectLeft :: double
  imgRectTop :: double

text \<open>\<open>Math.round(relative * (naturalDim / offsetDim))\<close>.\<close>

definition scaleRound :: "double \<Rightarrow> 32 word \<Rightarrow> 32 word \<Rightarrow> double" where
  "scaleRound relative naturalDim offsetDim =
     dround (dmul relative (ddiv (num32 naturalDim) (num32 offsetDim)))"

text \<open>\<open>Math.max(0, Math.min(natural, naturalDim - 1))\<close>.\<close>

definition clamped :: "double \<Rightarrow> 32 word \<Rightarrow> double" where
  "clamped natural naturalDim =
     dmax (Finite 0) (dmin natural (dsub (num32 naturalDim) (Finite 1)))"

text \<open>
  The call \<open>onImageClick(x, y, position)\<close> the handler makes (\<open>None\<close> is \<open>null\<close>).
\<close>

datatype callback = OnImageClick "double option" "double option" "marker option"

text \<open>
  \<open>handleImageClick\<close> on the state \<open>clickPosition\<close>: the new state and the
  callback made, if any. \<open>imageRef\<close> is \<open>None\<close> when the image or its container is
  not mounted (the early return). A click outside the image changes nothing.
\<close>

definition handleImageClick ::
  "image option \<Rightarrow> marker option \<Rightarrow> click \<Rightarrow> marker option \<times> callback option" where
  "handleImageClick imageRef clickPosition e =
     (case imageRef of
        None \<Rightarrow> (clickPosition, None)
      | Some img \<Rightarrow>
     (let clickX = dsub (clientX e) (rectLeft e);
          clickY = dsub (clientY e) (rectTop e);
          imgLeft = dsub (imgRectLeft e) (rectLeft e);
          imgTop = dsub (imgRectTop e) (rectTop e);
          relativeX = dsub clickX imgLeft;
          relativeY = dsub clickY imgTop
      in if dle (Finite 0) relativeX \<and> dle relativeX (num32 (offsetWidth img)) \<and>
            dle (Finite 0) relativeY \<and> dle relativeY (num32 (offsetHeight img))
         then
           (let clampedX = clamped (scaleRound relativeX (naturalWidth img) (offsetWidth img))
                             (naturalWidth img);
                clampedY = clamped (scaleRound relativeY (naturalHeight img) (offsetHeight img))
                             (naturalHeight img)
            in if (case clickPosition of
                     None \<Rightarrow> False
                   | Some m \<Rightarrow> dless (dabs (dsub (displayX m) relativeX)) (Finite 10) \<and>
                              dless (dabs (dsub (displayY m) relativeY)) (Finite 10))
               then (None, Some (OnImageClick None None None))
               else
                 (let newPosition = \<lparr>displayX = relativeX, displayY = relativeY,
                                     naturalX = clampedX, naturalY = clampedY\<rparr>
                  in (Some newPosition,
                      Some (OnImageClick (Some clampedX) (Some clampedY) (Some newPosition)))))
         else (clickPosition, None)))"

section \<open>Properties of the double arithmetic\<close>

lemma find_append_None:
  "List.find P xs = None \<Longrightarrow> List.find P (xs @ ys) = List.find P ys"
  by (induction xs) (auto split: if_splits)

lemma find_pow_rev_upto:
  assumes "a \<le> e" "e \<le> b" "2 powi e \<le> \<bar>x :: real\<bar>" "e < b \<Longrightarrow> \<bar>x\<bar> < 2 powi (e + 1)"
  shows "List.find (\<lambda>k. 2 powi k \<le> \<bar>x\<bar>) (rev [a..b]) = Some e"
proof -
  have split: "rev [a..b] = rev [e + 1..b] @ e # rev [a..e - 1]"
    using assms(1,2) by (simp add: upto_split3)
  have "List.find (\<lambda>k. 2 powi k \<le> \<bar>x\<bar>) (rev [e + 1..b]) = None"
  proof (subst find_None_iff, safe)
    fix k :: int assume "k \<in> set (rev [e + 1..b])" and le: "2 powi k \<le> \<bar>x\<bar>"
    then have k: "e + 1 \<le> k" "k \<le> b" by simp_all
    then have "(2::real) powi (e + 1) \<le> 2 powi k"
      by (intro power_int_increasing) simp_all
    moreover from k have "e < b" by simp
    ultimately show False using assms(4) le by simp
  qed
  then show ?thesis
    unfolding split using assms(3) by (simp add: find_append_None)
qed

lemma expo_eq:
  assumes "- 1022 \<le> e" "e \<le> 1023" "2 powi e \<le> \<bar>x\<bar>" "e < 1023 \<Longrightarrow> \<bar>x\<bar> < 2 powi (e + 1)"
  shows "expo x = e"
proof -
  have "List.find (\<lambda>k. 2 powi k \<le> \<bar>x\<bar>) (rev [emin..emax]) = Some e"
    using assms by (intro find_pow_rev_upto) (simp_all add: emin_def emax_def)
  then show ?thesis by (simp add: expo_def)
qed

lemma expo_tiny: "\<bar>x\<bar> < 2 powi (- 1022) \<Longrightarrow> expo x = - 1022"
proof -
  assume tiny: "\<bar>x\<bar> < 2 powi (- 1022)"
  have "List.find (\<lambda>k. 2 powi k \<le> \<bar>x\<bar>) (rev [emin..emax]) = None"
  proof (subst find_None_iff, safe)
    fix k :: int assume "k \<in> set (rev [emin..emax])" and le: "2 powi k \<le> \<bar>x\<bar>"
    then have "emin \<le> k" by simp
    then have "- 1022 \<le> k" by (simp add: emin_def)
    then have "(2::real) powi (- 1022) \<le> 2 powi k"
      by (intro power_int_increasing) simp_all
    with le tiny show False by simp
  qed
  then show ?thesis by (simp add: expo_def emin_def)
qed

lemma expo_range: "- 1022 \<le> expo x \<and> expo x \<le> 1023"
proof (cases "List.find (\<lambda>k. 2 powi k \<le> \<bar>x\<bar>) (rev [emin..emax])")
  case None
  then show ?thesis by (simp add: expo_def emin_def)
next
  case (Some e)
  then have "e \<in> set (rev [emin..emax])"
    by (metis find_Some_iff nth_mem)
  then have "emin \<le> e \<and> e \<le> emax"
    by simp
  then have "- 1022 \<le> e \<and> e \<le> 1023"
    by (simp add: emin_def emax_def)
  with Some show ?thesis by (simp add: expo_def)
qed


lemma rne_of_int: "rne (of_int k) = k"
  by (simp add: rne_def)

lemma rne_close: "\<bar>of_int (rne q) - q\<bar> \<le> 1 / 2"
  unfolding rne_def Let_def by (auto split: if_splits)

lemma fl_not_NaN: "fl x \<noteq> NaN"
  by (simp add: fl_def Let_def)

lemma fl_eval:
  assumes "- 1022 \<le> e" "e \<le> 1023" "2 powi e \<le> \<bar>x\<bar>" "\<bar>x\<bar> < 2 powi (e + 1)"
    and "y = of_int (rne (x / 2 powi (e - 52))) * 2 powi (e - 52)"
    and "\<bar>y\<bar> < 2 powi 1024"
  shows "fl x = Finite y"
proof -
  have "expo x = e"
    using assms(1-4) by (intro expo_eq)
  then show ?thesis
    using assms(5,6) by (simp add: fl_def Let_def abs_less_iff)
qed

lemma exponent_exists:
  assumes "2 powi (- 1022) \<le> \<bar>x :: real\<bar>" "\<bar>x\<bar> < 2 powi 1024"
  shows "\<exists>e. - 1022 \<le> e \<and> e \<le> 1023 \<and> 2 powi e \<le> \<bar>x\<bar> \<and> \<bar>x\<bar> < 2 powi (e + 1)"
proof -
  have pos: "0 < \<bar>x\<bar>"
    using assms(1) by (smt (verit) zero_less_power_int)
  define e where "e = \<lfloor>log 2 \<bar>x\<bar>\<rfloor>"
  have "\<lfloor>log 2 \<bar>x\<bar>\<rfloor> = e" by (simp add: e_def)
  then have "2 powr real_of_int e \<le> \<bar>x\<bar> \<and> \<bar>x\<bar> < 2 powr real_of_int (e + 1)"
    by (subst (asm) floor_log_eq_powr_iff [OF pos]) simp_all
  moreover have "(2::real) powr real_of_int e = 2 powi e"
    by (rule powr_real_of_int') simp_all
  moreover have "(2::real) powr real_of_int (e + 1) = 2 powi (e + 1)"
    by (rule powr_real_of_int') simp_all
  ultimately have b: "2 powi e \<le> \<bar>x\<bar>" "\<bar>x\<bar> < 2 powi (e + 1)"
    by simp_all
  have "- 1022 \<le> e"
  proof (rule ccontr)
    assume "\<not> - 1022 \<le> e"
    then have "e + 1 \<le> - 1022" by simp
    then have "(2::real) powi (e + 1) \<le> 2 powi (- 1022)"
      by (intro power_int_increasing) simp_all
    with b(2) assms(1) show False by simp
  qed
  moreover have "e \<le> 1023"
  proof (rule ccontr)
    assume "\<not> e \<le> 1023"
    then have "1024 \<le> e" by simp
    then have "(2::real) powi 1024 \<le> 2 powi e"
      by (intro power_int_increasing) simp_all
    with b(1) assms(2) show False by simp
  qed
  ultimately show ?thesis using b by blast
qed

lemma fl_exact:
  assumes x: "x = of_int m * 2 powi k" and m: "\<bar>m\<bar> < 2 ^ 53" and k: "- 1074 \<le> k"
    and small: "\<bar>x\<bar> < 2 powi 1024"
  shows "fl x = Finite x"
proof -
  have scaled: "\<exists>n. x / 2 powi (expo x - 52) = of_int n"
  proof -
    have "expo x - 52 \<le> k"
    proof (cases "\<bar>x\<bar> < 2 powi (- 1022)")
      case True
      then have "expo x = - 1022" by (rule expo_tiny)
      with k show ?thesis by simp
    next
      case False
      then obtain e where e: "- 1022 \<le> e" "e \<le> 1023" "2 powi e \<le> \<bar>x\<bar>" "\<bar>x\<bar> < 2 powi (e + 1)"
        using exponent_exists small by (metis not_less)
      then have ex: "expo x = e" by (intro expo_eq)
      have "\<bar>x\<bar> = of_int \<bar>m\<bar> * 2 powi k"
        by (simp add: x abs_mult)
      also have "\<dots> < 2 ^ 53 * 2 powi k"
      proof -
        have "real_of_int \<bar>m\<bar> < 2 ^ 53"
          using m by (metis of_int_less_numeral_power_cancel_iff)
        then show ?thesis by simp
      qed
      also have "\<dots> = 2 powi (53 + k)"
        by (simp add: power_int_add)
      finally have "(2::real) powi e < 2 powi (53 + k)"
        using e(3) by simp
      then have "e < 53 + k"
        by (smt (verit) power_int_increasing)
      then show ?thesis by (simp add: ex)
    qed
    then obtain j where j: "k = expo x - 52 + int j"
      by (metis add.commute diff_add_cancel nonneg_int_cases diff_ge_0_iff_ge)
    define u :: real where "u = 2 powi (expo x - 52)"
    have "(2::real) powi k = u * 2 ^ j"
      unfolding u_def by (subst j) (simp add: power_int_add)
    moreover have "u \<noteq> 0" by (simp add: u_def)
    ultimately have "x / u = of_int m * 2 ^ j"
      by (simp add: x)
    also have "\<dots> = of_int (m * 2 ^ j)" by simp
    finally show ?thesis unfolding u_def by blast
  qed
  then obtain n where n: "x / 2 powi (expo x - 52) = of_int n" by blast
  moreover have "(2::real) powi (expo x - 52) \<noteq> 0" by simp
  ultimately have "of_int n * 2 powi (expo x - 52) = x"
    by (simp add: divide_eq_eq)
  with n have "of_int (rne (x / 2 powi (expo x - 52))) * 2 powi (expo x - 52) = x"
    by (simp add: rne_of_int)
  then show ?thesis
    using small by (simp add: fl_def Let_def abs_less_iff)
qed

lemma fl_exact_int: "\<bar>n\<bar> < 2 ^ 53 \<Longrightarrow> fl (of_int n) = Finite (of_int n)"
proof -
  assume n: "\<bar>n\<bar> < 2 ^ 53"
  then have "\<bar>real_of_int n\<bar> < 2 ^ 53"
    by (metis of_int_abs of_int_less_numeral_power_cancel_iff)
  also have "(2::real) ^ 53 < 2 powi 1024" by simp
  finally have "\<bar>real_of_int n\<bar> < 2 powi 1024" .
  with n show ?thesis
    by (intro fl_exact [where m = n and k = 0]) simp_all
qed

lemma fl_finite:
  assumes "\<bar>x\<bar> \<le> 2 powi 1023"
  shows "\<exists>y. fl x = Finite y"
proof -
  define u where "u = (2::real) powi (expo x - 52)"
  define y where "y = of_int (rne (x / u)) * u"
  have "0 < u" by (simp add: u_def)
  moreover have "u \<le> 2 powi 971"
    unfolding u_def by (rule power_int_increasing) (use expo_range [of x] in simp_all)
  ultimately have u: "0 < u" "u \<le> 2 powi 971" .
  have "y - x = (of_int (rne (x / u)) - x / u) * u"
    using u(1) by (simp add: y_def left_diff_distrib)
  then have "\<bar>y - x\<bar> = \<bar>of_int (rne (x / u)) - x / u\<bar> * u"
    using u(1) by (simp add: abs_mult)
  also have "\<dots> \<le> 1 / 2 * u"
    using rne_close [of "x / u"] u(1) by (intro mult_right_mono) simp_all
  finally have "\<bar>y\<bar> \<le> \<bar>x\<bar> + u / 2" by linarith
  also have "\<dots> \<le> 2 powi 1023 + 2 powi 971 / 2"
    using assms u(2) by simp
  also have "\<dots> < 2 powi 1024" by simp
  finally have "\<bar>y\<bar> < 2 powi 1024" .
  then show ?thesis
    by (simp add: fl_def Let_def u_def [symmetric] y_def [symmetric] abs_less_iff)
qed

lemma fl_zero: "fl 0 = Finite 0"
  using fl_exact_int [of 0] by simp

lemma fl_one: "fl 1 = Finite 1"
  using fl_exact_int [of 1] by simp

lemma fl_numeral: "(numeral n :: int) < 2 ^ 53 \<Longrightarrow> fl (numeral n) = Finite (numeral n)"
  using fl_exact_int [of "numeral n"] by simp

lemma fl_neg_numeral: "(numeral n :: int) < 2 ^ 53 \<Longrightarrow> fl (- numeral n) = Finite (- numeral n)"
  using fl_exact_int [of "- numeral n"] by simp

lemma fl_minus_one: "fl (- 1) = Finite (- 1)"
  using fl_exact_int [of "- 1"] by simp

lemmas fl_ints = fl_zero fl_one fl_minus_one fl_numeral fl_neg_numeral

lemma fl_eps: "fl (1 / 10 ^ 6) = Finite (4722366482869645 / 2 ^ 72)"
  by (rule fl_eval [where e = "- 20"]) (simp_all add: rne_def Let_def)

lemma dless_irrefl: "\<not> dless x x"
  by (cases x) simp_all

lemma dless_trans: "dless x y \<Longrightarrow> dless y z \<Longrightarrow> dless x z"
  by (cases x; cases y; cases z) simp_all

lemma dle_dless_trans: "dle x y \<Longrightarrow> dless y z \<Longrightarrow> dless x z"
  by (cases x; cases y; cases z) simp_all

section \<open>Properties of the angle matcher\<close>

lemma findIndex_Some:
  "findIndex p xs = Some i \<Longrightarrow> i < length xs \<and> p (xs ! i) \<and> (\<forall>j<i. \<not> p (xs ! j))"
proof (induction xs arbitrary: i)
  case Nil
  then show ?case by simp
next
  case (Cons x xs)
  show ?case
  proof (cases "p x")
    case True
    with Cons.prems show ?thesis by simp
  next
    case False
    with Cons.prems obtain k where k: "findIndex p xs = Some k" "i = Suc k"
      by auto
    from Cons.IH [OF k(1)] False k(2) show ?thesis
      by (auto simp: nth_Cons split: nat.splits)
  qed
qed

lemma findIndex_None:
  "findIndex p xs = None \<Longrightarrow> j < length xs \<Longrightarrow> \<not> p (xs ! j)"
  by (induction xs arbitrary: j) (auto simp: nth_Cons split: if_splits nat.splits)

lemma closestLoop_min:
  "i \<le> length a \<Longrightarrow> c < i \<Longrightarrow> m = dabs (dsub (a ! c) t) \<Longrightarrow>
   (\<forall>j<i. \<not> dless (dabs (dsub (a ! j) t)) m) \<Longrightarrow>
   (\<forall>j<c. \<not> dle (dabs (dsub (a ! j) t)) m) \<Longrightarrow>
   closestLoop a t i c m < length a \<and>
   (\<forall>j<length a. \<not> dless (dabs (dsub (a ! j) t)) (dabs (dsub (a ! closestLoop a t i c m) t))) \<and>
   (\<forall>j<closestLoop a t i c m.
      \<not> dle (dabs (dsub (a ! j) t)) (dabs (dsub (a ! closestLoop a t i c m) t)))"
proof (induction a t i c m rule: closestLoop.induct)
  case (1 a t i c m)
  show ?case
  proof (cases "i < length a")
    case False
    with "1.prems" have "i = length a" by simp
    have stop: "closestLoop a t i c m = c"
      using False by (subst closestLoop.simps) simp
    from "1.prems" \<open>i = length a\<close> show ?thesis unfolding stop by simp
  next
    case True
    define d where "d = dabs (dsub (a ! i) t)"
    show ?thesis
    proof (cases "dless d m")
      case less: True
      have step: "closestLoop a t i c m = closestLoop a t (i + 1) i d"
        using True less by (subst closestLoop.simps) (simp add: d_def Let_def)
      have below: "\<forall>j<i + 1. \<not> dless (dabs (dsub (a ! j) t)) d"
      proof (intro allI impI)
        fix j assume "j < i + 1"
        then consider "j < i" | "j = i" by linarith
        then show "\<not> dless (dabs (dsub (a ! j) t)) d"
        proof cases
          case 1
          with "1.prems"(4) have "\<not> dless (dabs (dsub (a ! j) t)) m" by simp
          with less show ?thesis using dless_trans by blast
        next
          case 2
          then show ?thesis by (simp add: d_def dless_irrefl)
        qed
      qed
      have strict: "\<forall>j<i. \<not> dle (dabs (dsub (a ! j) t)) d"
        using "1.prems"(4) less dle_dless_trans by blast
      from "1.IH"(1) [OF True d_def less _ _ _ below strict] True
      show ?thesis unfolding step by (simp add: d_def)
    next
      case geq: False
      have step: "closestLoop a t i c m = closestLoop a t (i + 1) c m"
        using True geq by (subst closestLoop.simps) (simp add: d_def Let_def)
      have below: "\<forall>j<i + 1. \<not> dless (dabs (dsub (a ! j) t)) m"
      proof (intro allI impI)
        fix j assume "j < i + 1"
        then consider "j < i" | "j = i" by linarith
        then show "\<not> dless (dabs (dsub (a ! j) t)) m"
        proof cases
          case 1
          with "1.prems"(4) show ?thesis by simp
        next
          case 2
          with geq show ?thesis by (simp add: d_def)
        qed
      qed
      from "1.IH"(2) [OF True d_def geq _ _ "1.prems"(3) below "1.prems"(5)] True "1.prems"(2)
      show ?thesis unfolding step by simp
    qed
  qed
qed

lemma fl_target: "fl (300000001 / 10000000) = Finite (4222124664733589 / 2 ^ 47)"
  by (rule fl_eval [where e = 4]) (simp_all add: rne_def Let_def)

lemma fl_target_from_0: "fl (0 - 4222124664733589 / 2 ^ 47) = Finite (- (4222124664733589 / 2 ^ 47))"
  by (rule fl_eval [where e = 4]) (simp_all add: rne_def Let_def)

lemma fl_target_from_30: "fl (30 - 4222124664733589 / 2 ^ 47) = Finite (- (14073749 / 2 ^ 47))"
  by (rule fl_eval [where e = "- 24"]) (simp_all add: rne_def Let_def)

lemma fl_one_plus: "fl (1 - - (1 / 2 ^ 60)) = Finite 1"
  by (rule fl_eval [where e = 0]) (simp_all add: rne_def Let_def)

lemma fl_minus_one_plus: "fl (- 1 - - (1 / 2 ^ 60)) = Finite (- 1)"
  by (rule fl_eval [where e = "- 1"]) (simp_all add: rne_def Let_def)

text \<open>
  Claim C6, as the code has it: on an empty angle array, and on a missing one,
  \<open>findClosestAngleIndex\<close> returns index 0 (the guard on its first line); it raises no
  error.
\<close>

theorem findClosestAngleIndex_empty:
  "findClosestAngleIndex (Some []) targetAngle = 0 \<and> findClosestAngleIndex None targetAngle = 0"
  by (simp add: findClosestAngleIndex_def)

text \<open>
  Claim C6 as stated (an empty array fails with an error) does not hold: for the empty
  array and the target 30 the function returns the index 0.
\<close>

theorem findClosestAngleIndex_empty_counterexample:
  "findClosestAngleIndex (Some []) (Finite 30) = 0"
  by (simp add: findClosestAngleIndex_def)

text \<open>
  Claim C7, as the code has it: the differences are the ones the program computes,
  \<open>Math.abs(angle - target)\<close> in double arithmetic, and \<open>1e-6\<close> is the double of that
  literal. On a non-empty angle array the result is an index of the array. When some
  computed difference is below \<open>1e-6\<close>, the result is the first index with such a
  difference. Otherwise no computed difference is smaller than the one at the result,
  and none at an earlier index is smaller than or equal to it: among differences that
  are not \<open>NaN\<close>, the result is the earliest index of the minimal computed difference.
  On \<open>[0, 30, 60, 90]\<close> the targets 29, 30.0000001 (through the exact-match scan) and 45
  all give index 1.
\<close>

theorem findClosestAngleIndex_closest:
  "angles \<noteq> [] \<Longrightarrow>
   (let r = findClosestAngleIndex (Some angles) target;
        diff = (\<lambda>i. dabs (dsub (angles ! i) target));
        eps = fl (1 / 10 ^ 6)
    in r < length angles \<and>
       (if \<exists>i<length angles. dless (diff i) eps
        then dless (diff r) eps \<and> (\<forall>j<r. \<not> dless (diff j) eps)
        else (\<forall>j<length angles. \<not> dless (diff j) (diff r)) \<and>
             (\<forall>j<r. \<not> dle (diff j) (diff r)))) \<and>
   findClosestAngleIndex (Some [Finite 0, Finite 30, Finite 60, Finite 90]) (Finite 29) = 1 \<and>
   findClosestAngleIndex (Some [Finite 0, Finite 30, Finite 60, Finite 90])
     (fl (300000001 / 10000000)) = 1 \<and>
   findIndex (\<lambda>angle. dless (dabs (dsub angle (fl (300000001 / 10000000)))) (fl (1 / 10 ^ 6)))
     [Finite 0, Finite 30, Finite 60, Finite 90] = Some 1 \<and>
   findClosestAngleIndex (Some [Finite 0, Finite 30, Finite 60, Finite 90]) (Finite 45) = 1"
proof -
  assume ne: "angles \<noteq> []"
  let ?p = "\<lambda>angle. dless (dabs (dsub angle target)) (fl (1 / 10 ^ 6))"
  let ?d = "\<lambda>i. dabs (dsub (angles ! i) target)"
  let ?r = "findClosestAngleIndex (Some angles) target"
  have general:
    "?r < length angles \<and>
      (if \<exists>i<length angles. ?p (angles ! i)
       then ?p (angles ! ?r) \<and> (\<forall>j<?r. \<not> ?p (angles ! j))
       else (\<forall>j<length angles. \<not> dless (?d j) (?d ?r)) \<and>
            (\<forall>j<?r. \<not> dle (?d j) (?d ?r)))"
  proof (cases "findIndex ?p angles")
    case (Some k)
    then have r: "?r = k"
      using ne by (simp add: findClosestAngleIndex_def)
    from findIndex_Some [OF Some] show ?thesis
      unfolding r by auto
  next
    case None
    then have r: "?r = closestLoop angles target 1 0 (?d 0)"
      using ne by (simp add: findClosestAngleIndex_def)
    have no: "\<not> (\<exists>i<length angles. ?p (angles ! i))"
      using findIndex_None [OF None] by blast
    have "1 \<le> length angles"
      using ne by (cases angles) simp_all
    from closestLoop_min [OF this, of 0 "?d 0" target]
    show ?thesis unfolding r using no by (simp add: dless_irrefl)
  qed
  have e1: "findClosestAngleIndex (Some [Finite 0, Finite 30, Finite 60, Finite 90]) (Finite 29) = 1"
    by (simp add: findClosestAngleIndex_def closestLoop.simps Let_def fl_ints fl_eps [simplified])
  have e2: "findIndex (\<lambda>angle. dless (dabs (dsub angle (fl (300000001 / 10000000)))) (fl (1 / 10 ^ 6)))
     [Finite 0, Finite 30, Finite 60, Finite 90] = Some 1"
    by (simp add: fl_target [simplified] fl_target_from_0 [simplified]
        fl_target_from_30 [simplified] fl_eps [simplified])
  have e3: "findClosestAngleIndex (Some [Finite 0, Finite 30, Finite 60, Finite 90])
     (fl (300000001 / 10000000)) = 1"
    using e2 by (simp add: findClosestAngleIndex_def)
  have e4: "findClosestAngleIndex (Some [Finite 0, Finite 30, Finite 60, Finite 90]) (Finite 45) = 1"
    by (simp add: findClosestAngleIndex_def closestLoop.simps Let_def fl_ints fl_eps [simplified])
  from general e1 e2 e3 e4 show ?thesis
    unfolding Let_def by blast
qed

theorem findClosestAngleIndex_closest_witness:
  "[Finite 0, Finite 30, Finite 60, Finite 90] \<noteq> [] \<and>
   findClosestAngleIndex (Some [Finite 0, Finite 30, Finite 60, Finite 90]) (Finite 45)
     < length [Finite 0, Finite 30, Finite 60, Finite 90]"
proof -
  have ne: "[Finite 0, Finite 30, Finite 60, Finite 90] \<noteq> []" by simp
  note inst = findClosestAngleIndex_closest [OF ne, of "Finite 45", unfolded Let_def]
  from ne inst [THEN conjunct1, THEN conjunct1] show ?thesis ..
qed

text \<open>
  Claim C7 as stated, with exact differences, does not hold: on \<open>[1, -1]\<close> with the
  target \<open>-2^-60\<close> both computed differences round to 1, so the result is index 0,
  although the exact difference at index 1 is the strictly smaller one.
\<close>

theorem findClosestAngleIndex_closest_counterexample:
  "findClosestAngleIndex (Some [Finite 1, Finite (- 1)]) (Finite (- (1 / 2 ^ 60))) = 0 \<and>
   \<bar>- 1 - - (1 / 2 ^ 60)\<bar> < \<bar>1 - - (1 / 2 ^ 60 :: real)\<bar>"
  by (simp add: findClosestAngleIndex_def closestLoop.simps Let_def fl_one_plus [simplified]
      fl_minus_one_plus [simplified] fl_eps [simplified])

section \<open>Properties of the spectral index resolver\<close>

lemma rowOrEmpty_present:
  "row < length t \<Longrightarrow> t ! row = Some sp \<Longrightarrow> rowOrEmpty (Some t) row = sp"
  by (simp add: rowOrEmpty_def)

lemma rowOrEmpty_absent:
  "table = None \<or> (\<exists>t. table = Some t \<and> (length t \<le> row \<or> t ! row = None)) \<Longrightarrow>
   rowOrEmpty table row = []"
  by (auto simp: rowOrEmpty_def split: option.splits)

lemma spectralValues_named:
  "(caseType, table) \<in> {(''standard'', standard pd), (''no_ch4'', no_ch4 pd), (''no_haze'', no_haze pd)} \<Longrightarrow>
   spectralValues pd row caseType = rowOrEmpty table row"
  by (auto simp: spectralValues_def)

lemma plot_of_empty_row:
  "wavelength pd = Some w \<Longrightarrow> spectralValues pd (angleIndex pd i e a) caseType = [] \<Longrightarrow>
   createSpectralPlotData (Some pd) i e a caseType = map (\<lambda>x. (x, 0)) w"
proof -
  assume w: "wavelength pd = Some w" and v: "spectralValues pd (angleIndex pd i e a) caseType = []"
  have "map (\<lambda>k. (w ! k, 0::real)) [0..<length w] = map (\<lambda>x. (x, 0)) (map ((!) w) [0..<length w])"
    by simp
  also have "\<dots> = map (\<lambda>x. (x, 0)) w"
    by (simp only: map_nth)
  finally show ?thesis
    using w v by (simp add: createSpectralPlotData_def)
qed

text \<open>
  Claim C8: for the case names \<open>standard\<close>, \<open>no_ch4\<close> and \<open>no_haze\<close> the selected
  spectrum is the row of the table of that name when the row is there, and the empty
  sequence when it is absent (the table is missing, the index lies past its end, or the
  row is \<open>null\<close>); no error is raised, the function being total.
\<close>

theorem spectralValues_selectCase:
  "(caseType, table) \<in> {(''standard'', standard pd), (''no_ch4'', no_ch4 pd), (''no_haze'', no_haze pd)} \<Longrightarrow>
   (\<forall>t spectrum. table = Some t \<and> row < length t \<and> t ! row = Some spectrum \<longrightarrow>
      spectralValues pd row caseType = spectrum) \<and>
   (table = None \<or> (\<exists>t. table = Some t \<and> (length t \<le> row \<or> t ! row = None)) \<longrightarrow>
      spectralValues pd row caseType = [])"
proof -
  assume sel: "(caseType, table) \<in> {(''standard'', standard pd), (''no_ch4'', no_ch4 pd), (''no_haze'', no_haze pd)}"
  have eq: "spectralValues pd row caseType = rowOrEmpty table row"
    using sel by (rule spectralValues_named)
  show ?thesis
    unfolding eq using rowOrEmpty_present rowOrEmpty_absent by blast
qed

theorem spectralValues_selectCase_witness:
  "(''no_ch4'', Some [None, Some [7, 8]]) \<in>
     {(''standard'', standard (the (processSpectralData (Some \<lparr>wavelength = Some [1, 2], inc = Some [Finite 0, Finite 30], emi = Some [Finite 0], daz = Some [Finite 0],
           standard = Some [Some [5, 6]], no_ch4 = Some [None, Some [7, 8]], no_haze = None\<rparr>)))),
      (''no_ch4'', no_ch4 (the (processSpectralData (Some \<lparr>wavelength = Some [1, 2], inc = Some [Finite 0, Finite 30], emi = Some [Finite 0], daz = Some [Finite 0],
           standard = Some [Some [5, 6]], no_ch4 = Some [None, Some [7, 8]], no_haze = None\<rparr>)))),
      (''no_haze'', no_haze (the (processSpectralData (Some \<lparr>wavelength = Some [1, 2], inc = Some [Finite 0, Finite 30], emi = Some [Finite 0], daz = Some [Finite 0],
           standard = Some [Some [5, 6]], no_ch4 = Some [None, Some [7, 8]], no_haze = None\<rparr>))))} \<and>
   spectralValues (the (processSpectralData (Some \<lparr>wavelength = Some [1, 2], inc = Some [Finite 0, Finite 30], emi = Some [Finite 0], daz = Some [Finite 0],
           standard = Some [Some [5, 6]], no_ch4 = Some [None, Some [7, 8]], no_haze = None\<rparr>))) 1 ''no_ch4'' = [7, 8] \<and>
   spectralValues (the (processSpectralData (Some \<lparr>wavelength = Some [1, 2], inc = Some [Finite 0, Finite 30], emi = Some [Finite 0], daz = Some [Finite 0],
           standard = Some [Some [5, 6]], no_ch4 = Some [None, Some [7, 8]], no_haze = None\<rparr>))) 0 ''no_ch4'' = []"
proof -
  define pd where "pd = the (processSpectralData (Some \<lparr>wavelength = Some [1, 2], inc = Some [Finite 0, Finite 30], emi = Some [Finite 0], daz = Some [Finite 0],
           standard = Some [Some [5, 6]], no_ch4 = Some [None, Some [7, 8]], no_haze = None\<rparr>))"
  have tables: "standard pd = Some [Some [5, 6]]" "no_ch4 pd = Some [None, Some [7, 8]]" "no_haze pd = None"
    by (simp_all add: pd_def processSpectralData_def)
  have sel: "(''no_ch4'', Some [None, Some [7, 8]]) \<in>
      {(''standard'', standard pd), (''no_ch4'', no_ch4 pd), (''no_haze'', no_haze pd)}"
    by (simp add: tables)
  have "spectralValues pd 1 ''no_ch4'' = [7, 8]"
    using spectralValues_selectCase [OF sel, of 1] by simp
  moreover have "spectralValues pd 0 ''no_ch4'' = []"
    using spectralValues_selectCase [OF sel, of 0] by simp
  ultimately show ?thesis
    using sel unfolding pd_def by blast
qed

text \<open>
  Claim C4, as the code has it: the flat row index is
  \<open>incIdx * (len emi * len daz) + emiIdx * len daz + dazIdx\<close>, the three indices coming
  from the angle matcher; for the axes \<open>[0,30,60,90]\<close>, \<open>[0,30,60,90]\<close>,
  \<open>[0,30,...,330]\<close> and the targets (60, 30, 210) the row is 115. A row index at or
  past the table's row count raises no error: the spectrum read is empty and every
  plotted intensity is 0.
\<close>

theorem angleIndex_row:
  "(inc pd = Some incAngles \<and> emi pd = Some emiAngles \<and> daz pd = Some dazAngles \<longrightarrow>
      angleIndex pd targetInc targetEmi targetDaz =
        findClosestAngleIndex (Some incAngles) targetInc * (length emiAngles * length dazAngles) +
        findClosestAngleIndex (Some emiAngles) targetEmi * length dazAngles +
        findClosestAngleIndex (Some dazAngles) targetDaz) \<and>
   (inc pd = Some [Finite 0, Finite 30, Finite 60, Finite 90] \<and> emi pd = Some [Finite 0, Finite 30, Finite 60, Finite 90] \<and>
    daz pd = Some [Finite 0, Finite 30, Finite 60, Finite 90, Finite 120, Finite 150, Finite 180, Finite 210, Finite 240, Finite 270, Finite 300, Finite 330] \<longrightarrow>
      angleIndex pd (Finite 60) (Finite 30) (Finite 210) = 115) \<and>
   (wavelength pd = Some w \<and>
    (caseType, Some t) \<in> {(''standard'', standard pd), (''no_ch4'', no_ch4 pd), (''no_haze'', no_haze pd)} \<and>
    length t \<le> angleIndex pd targetInc targetEmi targetDaz \<longrightarrow>
      createSpectralPlotData (Some pd) targetInc targetEmi targetDaz caseType = map (\<lambda>x. (x, 0)) w)"
proof (intro conjI impI)
  assume "inc pd = Some incAngles \<and> emi pd = Some emiAngles \<and> daz pd = Some dazAngles"
  then show "angleIndex pd targetInc targetEmi targetDaz =
        findClosestAngleIndex (Some incAngles) targetInc * (length emiAngles * length dazAngles) +
        findClosestAngleIndex (Some emiAngles) targetEmi * length dazAngles +
        findClosestAngleIndex (Some dazAngles) targetDaz"
    by (simp add: angleIndex_def Let_def mult.assoc)
next
  assume "inc pd = Some [Finite 0, Finite 30, Finite 60, Finite 90] \<and> emi pd = Some [Finite 0, Finite 30, Finite 60, Finite 90] \<and>
    daz pd = Some [Finite 0, Finite 30, Finite 60, Finite 90, Finite 120, Finite 150, Finite 180, Finite 210, Finite 240, Finite 270, Finite 300, Finite 330]"
  then show "angleIndex pd (Finite 60) (Finite 30) (Finite 210) = 115"
    by (simp add: angleIndex_def findClosestAngleIndex_def Let_def fl_ints fl_eps [simplified])
next
  assume a: "wavelength pd = Some w \<and>
    (caseType, Some t) \<in> {(''standard'', standard pd), (''no_ch4'', no_ch4 pd), (''no_haze'', no_haze pd)} \<and>
    length t \<le> angleIndex pd targetInc targetEmi targetDaz"
  let ?row = "angleIndex pd targetInc targetEmi targetDaz"
  from a have "spectralValues pd ?row caseType = rowOrEmpty (Some t) ?row"
    by (intro spectralValues_named) simp
  also from a have "\<dots> = []"
    by (simp add: rowOrEmpty_def)
  finally show "createSpectralPlotData (Some pd) targetInc targetEmi targetDaz caseType = map (\<lambda>x. (x, 0)) w"
    using a by (intro plot_of_empty_row) simp_all
qed

theorem angleIndex_row_witness:
  "angleIndex (the (processSpectralData (Some \<lparr>wavelength = Some [1, 2], inc = Some [Finite 0, Finite 30, Finite 60, Finite 90],
       emi = Some [Finite 0, Finite 30, Finite 60, Finite 90], daz = Some [Finite 0, Finite 30, Finite 60, Finite 90, Finite 120, Finite 150, Finite 180, Finite 210, Finite 240, Finite 270, Finite 300, Finite 330],
       standard = Some [Some [5, 6]], no_ch4 = None, no_haze = None\<rparr>))) (Finite 60) (Finite 30) (Finite 210) = 115 \<and>
   createSpectralPlotData (processSpectralData (Some \<lparr>wavelength = Some [1, 2], inc = Some [Finite 0, Finite 30, Finite 60, Finite 90],
       emi = Some [Finite 0, Finite 30, Finite 60, Finite 90], daz = Some [Finite 0, Finite 30, Finite 60, Finite 90, Finite 120, Finite 150, Finite 180, Finite 210, Finite 240, Finite 270, Finite 300, Finite 330],
       standard = Some [Some [5, 6]], no_ch4 = None, no_haze = None\<rparr>)) (Finite 60) (Finite 30) (Finite 210) ''standard'' = [(1, 0), (2, 0)]"
proof -
  define d :: library where "d = \<lparr>wavelength = Some [1, 2], inc = Some [Finite 0, Finite 30, Finite 60, Finite 90],
       emi = Some [Finite 0, Finite 30, Finite 60, Finite 90], daz = Some [Finite 0, Finite 30, Finite 60, Finite 90, Finite 120, Finite 150, Finite 180, Finite 210, Finite 240, Finite 270, Finite 300, Finite 330],
       standard = Some [Some [5, 6]], no_ch4 = None, no_haze = None\<rparr>"
  obtain pd where pd: "processSpectralData (Some d) = Some pd"
    by (simp add: processSpectralData_def)
  then have fields: "wavelength pd = Some [1, 2]" "inc pd = Some [Finite 0, Finite 30, Finite 60, Finite 90]" "emi pd = Some [Finite 0, Finite 30, Finite 60, Finite 90]"
      "daz pd = Some [Finite 0, Finite 30, Finite 60, Finite 90, Finite 120, Finite 150, Finite 180, Finite 210, Finite 240, Finite 270, Finite 300, Finite 330]"
      "standard pd = Some [Some [5, 6]]" "no_ch4 pd = None" "no_haze pd = None"
    by (auto simp: processSpectralData_def d_def)
  note inst = angleIndex_row [of pd "[Finite 0, Finite 30, Finite 60, Finite 90]" "[Finite 0, Finite 30, Finite 60, Finite 90]"
      "[Finite 0, Finite 30, Finite 60, Finite 90, Finite 120, Finite 150, Finite 180, Finite 210, Finite 240, Finite 270, Finite 300, Finite 330]" "Finite 60" "Finite 30" "Finite 210" "[1, 2]" "''standard''" "[Some [5, 6]]"]
  have row: "angleIndex pd (Finite 60) (Finite 30) (Finite 210) = 115"
    using inst fields by blast
  have "createSpectralPlotData (Some pd) (Finite 60) (Finite 30) (Finite 210) ''standard'' = map (\<lambda>x. (x, 0)) [1, 2]"
    using inst fields row by simp
  with row show ?thesis
    using pd unfolding d_def by simp
qed

text \<open>
  Claim C4 as stated (a row index at or past the row count fails with a range error)
  does not hold: with two incidence angles and a one-row table, the target incidence
  30 gives row 1, and the plot data is returned with intensities 0.
\<close>

theorem angleIndex_row_counterexample:
  "length [Some [5, 6 :: real]] \<le>
     angleIndex (the (processSpectralData (Some \<lparr>wavelength = Some [1, 2], inc = Some [Finite 0, Finite 30],
       emi = Some [Finite 0], daz = Some [Finite 0], standard = Some [Some [5, 6]], no_ch4 = None, no_haze = None\<rparr>))) (Finite 30) (Finite 0) (Finite 0) \<and>
   createSpectralPlotData (processSpectralData (Some \<lparr>wavelength = Some [1, 2], inc = Some [Finite 0, Finite 30],
       emi = Some [Finite 0], daz = Some [Finite 0], standard = Some [Some [5, 6]], no_ch4 = None, no_haze = None\<rparr>)) (Finite 30) (Finite 0) (Finite 0) ''standard''
     = [(1, 0), (2, 0)]"
  by (simp add: processSpectralData_def createSpectralPlotData_def spectralValues_def rowOrEmpty_def
      angleIndex_def findClosestAngleIndex_def Let_def fl_ints fl_eps [simplified])

section \<open>Properties of the spectral sampler\<close>

lemma strided_count:
  "i < n \<Longrightarrow> 0 < step \<Longrightarrow> (n - i + step - 1) div step = Suc ((n - (i + step) + step - 1) div step)"
proof -
  assume a: "i < n" "0 < step"
  then have "n - i + step - 1 = (n - Suc i) + step" by simp
  then have "(n - i + step - 1) div step = ((n - Suc i) + step) div step"
    by (simp only:)
  also have "\<dots> = Suc ((n - Suc i) div step)"
    using a(2) by simp
  finally have left: "(n - i + step - 1) div step = Suc ((n - Suc i) div step)" .
  have right: "(n - (i + step) + step - 1) div step = (n - Suc i) div step"
  proof (cases "i + step \<le> n")
    case True
    with a have "n - (i + step) + step - 1 = n - Suc i" by simp
    then show ?thesis by simp
  next
    case False
    with a have "n - (i + step) + step - 1 < step" "n - Suc i < step" by simp_all
    then show ?thesis by simp
  qed
  show ?thesis unfolding left right ..
qed

lemma strided_eq:
  "0 < step \<Longrightarrow>
   strided xs step i = map (\<lambda>k. xs ! (i + k * step)) [0..<(length xs - i + step - 1) div step]"
proof (induction xs step i rule: strided.induct)
  case (1 xs step i)
  show ?case
  proof (cases "i < length xs")
    case True
    have unfold: "strided xs step i = xs ! i # strided xs step (i + step)"
      using True "1.prems" by (subst strided.simps) simp
    have count: "(length xs - i + step - 1) div step = Suc ((length xs - (i + step) + step - 1) div step)"
      using True "1.prems" by (rule strided_count)
    from "1.IH" True "1.prems"
    have "strided xs step (i + step) =
        map (\<lambda>k. xs ! (i + step + k * step)) [0..<(length xs - (i + step) + step - 1) div step]"
      by simp
    then show ?thesis
      unfolding unfold count map_upt_Suc by (simp add: add.assoc)
  next
    case False
    then have "strided xs step i = []"
      by (subst strided.simps) simp
    moreover from False "1.prems" have "(length xs - i + step - 1) div step = 0" by simp
    ultimately show ?thesis by simp
  qed
qed

lemma floor_quotient: "m \<noteq> 0 \<Longrightarrow> \<lfloor>real n / real_of_int m\<rfloor> = int n div m"
  by (metis floor_divide_of_int_eq of_int_of_nat_eq)

lemma sampleData_Some:
  "wavelength d = Some w \<Longrightarrow>
   \<exists>sd. sampleData (Some d) maxPoints = Some sd \<and>
     wavelength sd =
       Some (if int (length (sampleLoop w (samplingStep (length w) maxPoints))) < maxPoints \<and> length w > 0
             then sampleLoop w (samplingStep (length w) maxPoints) @ [w ! (length w - 1)]
             else sampleLoop w (samplingStep (length w) maxPoints)) \<and>
     standard sd = Some (sampleSpectralArray (samplingStep (length w) maxPoints) (standard d)) \<and>
     no_ch4 sd = Some (sampleSpectralArray (samplingStep (length w) maxPoints) (no_ch4 d)) \<and>
     no_haze sd = Some (sampleSpectralArray (samplingStep (length w) maxPoints) (no_haze d))"
  by (simp add: sampleData_def Let_def)

text \<open>
  Claim C3, as the code has it: for a non-zero \<open>maxPoints\<close> the step is
  \<open>max(1, floor(N / maxPoints))\<close>, the retained wavelengths are those at the indices
  \<open>0, step, 2 * step, ...\<close> below \<open>N\<close>, and the final original wavelength is appended
  when the retained count is below \<open>maxPoints\<close> and the axis is not empty. For 12
  wavelengths and \<open>maxPoints = 4\<close> the retained positions are 0, 3, 6, 9: the count 4
  is not below \<open>maxPoints\<close>, so nothing is appended.
\<close>

theorem sampleData_wavelength:
  "wavelength d = Some w \<Longrightarrow> maxPoints \<noteq> 0 \<Longrightarrow>
   (\<exists>sd. sampleData (Some d) maxPoints = Some sd \<and>
      wavelength sd = Some
        (let step = nat (max 1 \<lfloor>real (length w) / real_of_int maxPoints\<rfloor>);
             kept = map (\<lambda>k. w ! (k * step)) [0..<(length w + step - 1) div step]
         in if int (length kept) < maxPoints \<and> w \<noteq> [] then kept @ [last w] else kept)) \<and>
   (maxPoints = 4 \<and> length w = 12 \<longrightarrow>
      (\<exists>sd. sampleData (Some d) maxPoints = Some sd \<and>
         wavelength sd = Some [w ! 0, w ! 3, w ! 6, w ! 9]))"
proof -
  assume w: "wavelength d = Some w" and pos: "maxPoints \<noteq> 0"
  define step where "step = nat (max 1 \<lfloor>real (length w) / real_of_int maxPoints\<rfloor>)"
  have st: "samplingStep (length w) maxPoints = Step step"
    using pos by (simp add: samplingStep_def step_def floor_quotient)
  have "0 < step" by (simp add: step_def)
  then have loop: "sampleLoop w (Step step) =
      map (\<lambda>k. w ! (k * step)) [0..<(length w + step - 1) div step]"
    by (simp add: sampleLoop_def strided_eq)
  from sampleData_Some [OF w, of maxPoints]
  obtain sd where sd: "sampleData (Some d) maxPoints = Some sd"
    and wl: "wavelength sd =
       Some (if int (length (sampleLoop w (Step step))) < maxPoints \<and> length w > 0
             then sampleLoop w (Step step) @ [w ! (length w - 1)]
             else sampleLoop w (Step step))"
    unfolding st by blast
  have general: "wavelength sd = Some
        (let step = nat (max 1 \<lfloor>real (length w) / real_of_int maxPoints\<rfloor>);
             kept = map (\<lambda>k. w ! (k * step)) [0..<(length w + step - 1) div step]
         in if int (length kept) < maxPoints \<and> w \<noteq> [] then kept @ [last w] else kept)"
    unfolding wl loop Let_def step_def [symmetric]
    by (simp add: last_conv_nth)
  have example: "wavelength sd = Some [w ! 0, w ! 3, w ! 6, w ! 9]"
    if "maxPoints = 4 \<and> length w = 12"
  proof -
    from that have "step = 3" by (simp add: step_def)
    moreover from that have "strided w 3 0 = [w ! 0, w ! 3, w ! 6, w ! 9]"
      by (simp add: strided.simps)
    ultimately show ?thesis
      using that unfolding wl by (simp add: sampleLoop_def)
  qed
  from sd general example show ?thesis by blast
qed

theorem sampleData_wavelength_witness:
  "wavelength \<lparr>wavelength = Some [0, 1, 2, 3, 4, 5, 6, 7, 8, 9, 10, 11], inc = None, emi = None, daz = None,
      standard = None, no_ch4 = None, no_haze = None\<rparr> = Some [0, 1, 2, 3, 4, 5, 6, 7, 8, 9, 10, 11] \<and>
   (4::int) \<noteq> 0 \<and>
   Option.bind (sampleData (Some \<lparr>wavelength = Some [0, 1, 2, 3, 4, 5, 6, 7, 8, 9, 10, 11], inc = None,
      emi = None, daz = None, standard = None, no_ch4 = None, no_haze = None\<rparr>) 4) wavelength
     = Some [0, 3, 6, 9]"
proof -
  define d :: library where "d = \<lparr>wavelength = Some [0, 1, 2, 3, 4, 5, 6, 7, 8, 9, 10, 11], inc = None,
      emi = None, daz = None, standard = None, no_ch4 = None, no_haze = None\<rparr>"
  have w: "wavelength d = Some [0, 1, 2, 3, 4, 5, 6, 7, 8, 9, 10, 11]"
    by (simp add: d_def)
  have pos: "(4::int) \<noteq> 0" by simp
  from sampleData_wavelength [OF w pos, THEN conjunct2]
  have "Option.bind (sampleData (Some d) 4) wavelength = Some [0, 3, 6, 9]"
    by auto
  with w pos show ?thesis unfolding d_def by blast
qed

text \<open>
  Claim C3 as stated gives the positions 0, 3, 6, 9, 11 for 12 wavelengths and
  \<open>maxPoints = 4\<close>. On the axis whose value at each position is the position itself,
  the sampled axis is \<open>[0, 3, 6, 9]\<close>.
\<close>

theorem sampleData_wavelength_counterexample:
  "Option.bind (sampleData (Some \<lparr>wavelength = Some [0, 1, 2, 3, 4, 5, 6, 7, 8, 9, 10, 11], inc = None,
      emi = None, daz = None, standard = None, no_ch4 = None, no_haze = None\<rparr>) 4) wavelength
     = Some [0, 3, 6, 9] \<and>
   Option.bind (sampleData (Some \<lparr>wavelength = Some [0, 1, 2, 3, 4, 5, 6, 7, 8, 9, 10, 11], inc = None,
      emi = None, daz = None, standard = None, no_ch4 = None, no_haze = None\<rparr>) 4) wavelength
     \<noteq> Some [0, 3, 6, 9, 11]"
  by (simp add: sampleData_def samplingStep_def sampleLoop_def strided.simps Let_def)

text \<open>
  Claim C2 (after sampling, the wavelength axis and every spectral row have the same
  length and stay index-aligned) fails on the code whenever the final wavelength is
  appended: the append is made to the wavelength axis only. For a library of 3
  wavelengths and the budget 100 the sampled axis has 4 entries (the last one twice)
  and every row keeps its 3 entries.
\<close>

theorem sampleData_misaligned:
  "sampleData (Some \<lparr>wavelength = Some [1, 2, 3], inc = Some [Finite 0, Finite 30, Finite 0], emi = Some [Finite 0], daz = Some [Finite 0],
      standard = Some [Some [10, 20, 30]], no_ch4 = Some [Some [11, 21, 31]],
      no_haze = Some [Some [12, 22, 32]]\<rparr>) 100 =
   Some \<lparr>wavelength = Some [1, 2, 3, 3], inc = Some [Finite 0, Finite 30], emi = Some [Finite 0], daz = Some [Finite 0],
      standard = Some [Some [10, 20, 30]], no_ch4 = Some [Some [11, 21, 31]],
      no_haze = Some [Some [12, 22, 32]]\<rparr>"
  by (simp add: sampleData_def samplingStep_def sampleLoop_def strided.simps sampleSpectralArray_def
      unique_def Let_def)

text \<open>
  When the budget is positive and does not exceed the number of wavelengths, nothing
  is appended, and a row as long as the axis is sampled to the length of the sampled
  axis: the misalignment arises only for an axis shorter than the budget.
\<close>

lemma length_sampleLoop:
  "length xs = length ys \<Longrightarrow> length (sampleLoop xs st) = length (sampleLoop ys st)"
proof (cases st)
  case (Step s)
  assume len: "length xs = length ys"
  show ?thesis
  proof (cases "0 < s")
    case True
    then show ?thesis using len by (simp add: Step sampleLoop_def strided_eq)
  next
    case False
    then have "strided xs s 0 = []" "strided ys s 0 = []"
      by (subst strided.simps, simp)+
    then show ?thesis by (simp add: Step sampleLoop_def)
  qed
next
  case NonFinite
  assume "length xs = length ys"
  then show ?thesis by (simp add: NonFinite sampleLoop_def)
qed

lemma sampleData_no_append:
  assumes w: "wavelength d = Some w" and pos: "0 < maxPoints" and full: "maxPoints \<le> int (length w)"
  shows "\<exists>sd. sampleData (Some d) maxPoints = Some sd \<and>
           wavelength sd = Some (sampleLoop w (samplingStep (length w) maxPoints))"
proof -
  define n where "n = length w"
  define m where "m = nat maxPoints"
  define s where "s = n div m"
  have m: "0 < m" "m \<le> n" "maxPoints = int m"
    using pos full by (simp_all add: m_def n_def)
  then have s: "0 < s"
    by (simp add: s_def div_greater_zero_iff)
  have "int n div maxPoints = int s"
    by (simp add: m(3) s_def zdiv_int)
  then have st: "samplingStep (length w) maxPoints = Step s"
    using pos s by (simp add: samplingStep_def n_def)
  have "s * m \<le> n"
    by (simp add: s_def)
  then have "m \<le> n div s"
    using s by (simp add: less_eq_div_iff_mult_less_eq mult.commute)
  also have "\<dots> \<le> (n + s - 1) div s"
    using s by (intro div_le_mono) simp
  finally have "\<not> int (length (sampleLoop w (Step s))) < maxPoints"
    using s by (simp add: sampleLoop_def strided_eq n_def m(3))
  with sampleData_Some [OF w, of maxPoints] show ?thesis
    unfolding st by auto
qed

section \<open>Properties of the geo-cube decoder\<close>

lemma totalElements_value: "totalElements = 4173849"
  by (simp add: totalElements_def numBands_def numLines_def numSamples_def)

lemma getFloat32_inside:
  "byteOffset + 4 \<le> length view \<Longrightarrow> \<exists>v. getFloat32 view byteOffset = Inr v"
  by (simp add: getFloat32_def)

lemma parseLoop_short:
  "length view < 4 * n \<Longrightarrow> 4 * i \<le> length view \<Longrightarrow> parseLoop view n i data = Inl RangeError"
proof (induction view n i data rule: parseLoop.induct)
  case (1 view n i data)
  from "1.prems" have less: "i < n" by simp
  show ?case
  proof (cases "getFloat32 view (i * 4)")
    case (Inl e)
    then have "e = RangeError"
      by (simp add: getFloat32_def split: if_splits)
    with Inl less show ?thesis
      by (subst parseLoop.simps) simp
  next
    case (Inr v)
    then have "4 * (i + 1) \<le> length view"
      by (simp add: getFloat32_def split: if_splits)
    from "1.IH" [OF less Inr "1.prems"(1) this] Inr less show ?thesis
      by (subst parseLoop.simps) simp
  qed
qed

lemma parseLoop_long:
  "4 * n \<le> length view \<Longrightarrow> i \<le> n \<Longrightarrow> length data = n \<Longrightarrow>
   \<exists>out. parseLoop view n i data = Inr out \<and> length out = n \<and>
     (\<forall>k<n. if k < i then out ! k = data ! k else getFloat32 view (k * 4) = Inr (out ! k))"
proof (induction view n i data rule: parseLoop.induct)
  case (1 view n i data)
  show ?case
  proof (cases "i < n")
    case False
    with "1.prems" have "i = n" by simp
    moreover from False have "parseLoop view n i data = Inr data"
      by (subst parseLoop.simps) simp
    ultimately show ?thesis using "1.prems" by simp
  next
    case True
    with "1.prems" have "i * 4 + 4 \<le> length view" by simp
    then obtain v where v: "getFloat32 view (i * 4) = Inr v"
      using getFloat32_inside by blast
    have unfold: "parseLoop view n i data = parseLoop view n (i + 1) (data[i := v])"
      using True v by (subst parseLoop.simps) simp
    from "1.IH" [OF True v "1.prems"(1)] True "1.prems"
    obtain out where out: "parseLoop view n (i + 1) (data[i := v]) = Inr out" "length out = n"
      "\<forall>k<n. if k < i + 1 then out ! k = data[i := v] ! k else getFloat32 view (k * 4) = Inr (out ! k)"
      by auto
    have "\<forall>k<n. if k < i then out ! k = data ! k else getFloat32 view (k * 4) = Inr (out ! k)"
    proof (intro allI impI)
      fix k assume k: "k < n"
      consider "k < i" | "k = i" | "i < k" by linarith
      then show "if k < i then out ! k = data ! k else getFloat32 view (k * 4) = Inr (out ! k)"
      proof cases
        case 1
        with out(3) k show ?thesis by simp
      next
        case 2
        with out(3) k "1.prems" v show ?thesis by simp
      next
        case 3
        with out(3) k show ?thesis by simp
      qed
    qed
    with out show ?thesis unfolding unfold by blast
  qed
qed

lemma getFloat32_zeros:
  "byteOffset + 4 \<le> n \<Longrightarrow> getFloat32 (replicate n 0) byteOffset = Inr 0"
  by (simp add: getFloat32_def)

lemma parseGeoCube_zeros:
  "16695396 \<le> n \<Longrightarrow> parseGeoCube (replicate n 0) = Inr (replicate 4173849 0)"
proof -
  assume n: "16695396 \<le> n"
  then have "4 * totalElements \<le> length (replicate n (0::byte))"
    by (simp add: totalElements_value)
  from parseLoop_long [OF this, of 0 "replicate totalElements 0"]
  obtain out where out: "parseGeoCube (replicate n 0) = Inr out" "length out = totalElements"
    "\<forall>k<totalElements. getFloat32 (replicate n 0) (k * 4) = Inr (out ! k)"
    unfolding parseGeoCube_def by auto
  have "out = replicate 4173849 0"
  proof (rule nth_equalityI)
    show "length out = length (replicate 4173849 (0::float32))"
      using out(2) by (simp add: totalElements_value)
  next
    fix i assume "i < length out"
    then have i: "i < totalElements" using out(2) by simp
    then have "i * 4 + 4 \<le> n" using n by (simp add: totalElements_value)
    then have "getFloat32 (replicate n 0) (i * 4) = Inr 0"
      by (rule getFloat32_zeros)
    with out(3) i have "out ! i = 0" by simp
    with i show "out ! i = replicate 4173849 0 ! i"
      by (simp add: totalElements_value)
  qed
  with out(1) show ?thesis by simp
qed

text \<open>
  Claim C1, as the code has it: a buffer shorter than 9 * 681 * 681 * 4 = 16,695,396
  bytes (one byte short, for example) makes the decoder fail with the \<open>RangeError\<close> of
  the out-of-bounds read, and no array is returned, so no value stands in for the
  missing bytes. A buffer of at least that many bytes is decoded: the result has
  9 * 681 * 681 elements, element \<open>i\<close> being the little-endian float at byte offset
  \<open>4 * i\<close>; bytes past the first 16,695,396 are never read.
\<close>

theorem parseGeoCube_length:
  "(length buffer < 16695396 \<longrightarrow> parseGeoCube buffer = Inl RangeError) \<and>
   (16695396 \<le> length buffer \<longrightarrow>
      (\<exists>data. parseGeoCube buffer = Inr data \<and> length data = 9 * 681 * 681 \<and>
         (\<forall>i<9 * 681 * 681. getFloat32 buffer (i * 4) = Inr (data ! i))))"
proof (intro conjI impI)
  assume "length buffer < 16695396"
  then have "length buffer < 4 * totalElements"
    by (simp add: totalElements_value)
  then show "parseGeoCube buffer = Inl RangeError"
    unfolding parseGeoCube_def by (rule parseLoop_short) simp
next
  assume "16695396 \<le> length buffer"
  then have "4 * totalElements \<le> length buffer"
    by (simp add: totalElements_value)
  from parseLoop_long [OF this, of 0 "replicate totalElements 0"]
  show "\<exists>data. parseGeoCube buffer = Inr data \<and> length data = 9 * 681 * 681 \<and>
         (\<forall>i<9 * 681 * 681. getFloat32 buffer (i * 4) = Inr (data ! i))"
    unfolding parseGeoCube_def by (simp add: totalElements_value)
qed

theorem parseGeoCube_length_witness:
  "length ([] :: byte list) < 16695396 \<and> parseGeoCube [] = Inl RangeError \<and>
   16695396 \<le> length (replicate 16695396 (0 :: byte)) \<and>
   (\<exists>data. parseGeoCube (replicate 16695396 0) = Inr data \<and> length data = 9 * 681 * 681)"
proof -
  have short: "length ([] :: byte list) < 16695396" by simp
  have long: "16695396 \<le> length (replicate 16695396 (0 :: byte))" by simp
  from parseGeoCube_length [of "[]", THEN conjunct1] short
  have "parseGeoCube [] = Inl RangeError" by blast
  moreover from parseGeoCube_length [of "replicate 16695396 0", THEN conjunct2] long
  have "\<exists>data. parseGeoCube (replicate 16695396 0) = Inr data \<and> length data = 9 * 681 * 681"
    by blast
  ultimately show ?thesis using short long by blast
qed

text \<open>
  Claim C1 as stated (every length other than 16,695,396 fails) does not hold: a buffer
  of 16,695,397 zero bytes, one byte too long, is decoded to the cube of zeros.
\<close>

theorem parseGeoCube_length_counterexample:
  "parseGeoCube (replicate 16695397 0) = Inr (replicate 4173849 0)"
  by (rule parseGeoCube_zeros) simp

lemma getGeoValue_zeros:
  "getGeoValue (replicate 4173849 0) 0 0 0 = Some 0"
  "getGeoValue (replicate 4173849 0) 0 0 1 = Some 0"
  "getGeoValue (replicate 4173849 0) 0 0 4 = Some 0"
  "getGeoValue (replicate 4173849 0) 0 0 5 = Some 0"
  "getGeoValue (replicate 4173849 0) 0 0 6 = Some 0"
  by (simp_all add: getGeoValue_def numBands_def numLines_def numSamples_def Let_def)

lemma getGeoValue_parsed:
  "length geoCubeData = totalElements \<Longrightarrow> \<exists>v. getGeoValue geoCubeData x y band = Some v"
proof -
  assume len: "length geoCubeData = totalElements"
  define cx where "cx = max 0 (min \<lfloor>x\<rfloor> (int numSamples - 1))"
  define cy where "cy = max 0 (min \<lfloor>y\<rfloor> (int numLines - 1))"
  define cb where "cb = max 0 (min \<lfloor>band\<rfloor> (int numBands - 1))"
  have bounds: "0 \<le> cx" "cx \<le> 680" "0 \<le> cy" "cy \<le> 680" "0 \<le> cb" "cb \<le> 8"
    by (simp_all add: cx_def cy_def cb_def numBands_def numLines_def numSamples_def)
  then have "0 \<le> cb * 681 * 681 + cy * 681 + cx" "cb * 681 * 681 + cy * 681 + cx < 4173849"
    by simp_all
  then have "\<not> (cb * int numLines * int numSamples + cy * int numSamples + cx < 0 \<or>
      cb * int numLines * int numSamples + cy * int numSamples + cx \<ge> int (length geoCubeData))"
    using len by (simp add: totalElements_value numLines_def numSamples_def)
  then show ?thesis
    unfolding getGeoValue_def Let_def cx_def [symmetric] cy_def [symmetric] cb_def [symmetric]
    by (simp del: of_nat_mult)
qed

lemma extractGeoValues_azimuth_undefined:
  "extractGeoValues fetched x y ''azimuth'' = None"
  by (simp add: extractGeoValues_def Let_def split: sum.splits)

text \<open>
  Claim C5 (the lookups are made for the bands 0, 1, 4, 5, 6 and 7, and six results
  are packaged) fails on the code: \<open>extractGeoValues\<close> looks up the bands 0, 1, 4, 5
  and 6 only. On a well-formed cube of zeros, at (0, 0), the object returned has the
  keys \<open>lat\<close>, \<open>lon\<close>, \<open>phase\<close>, \<open>incidence\<close>, \<open>emis\<close>, \<open>x\<close> and \<open>y\<close>, and
  reading \<open>azimuth\<close> from it gives \<open>undefined\<close>.
\<close>

theorem extractGeoValues_five_bands:
  "extractGeoValues (Inr (replicate 16695396 0)) 0 0 =
     map_of [(''lat'', Float 0), (''lon'', Float 0), (''phase'', Float 0), (''incidence'', Float 0),
             (''emis'', Float 0), (''x'', Number 0), (''y'', Number 0)] \<and>
   extractGeoValues (Inr (replicate 16695396 0)) 0 0 ''azimuth'' = None"
proof -
  have parsed: "parseGeoCube (replicate 16695396 0) = Inr (replicate 4173849 0)"
    by (rule parseGeoCube_zeros) simp
  show ?thesis
    by (simp add: extractGeoValues_def parsed getGeoValue_zeros orNull_def Let_def)
qed

section \<open>Properties of the coordinate mapper\<close>

lemma in_bounds_finite:
  "dle (Finite 0) r \<Longrightarrow> dle r (num32 w) \<Longrightarrow> \<exists>v. r = Finite v \<and> 0 \<le> v \<and> v \<le> real (unat w)"
  by (cases r) (simp_all add: num32_def)

lemma size_pos: "(w :: 32 word) \<noteq> 0 \<Longrightarrow> 1 \<le> unat w"
  by (metis One_nat_def Suc_leI unat_gt_0)

lemma size_bound: "unat (w :: 32 word) < 2 ^ 32"
  using unsigned_less [of w] by simp

lemma size_minus_one:
  "w \<noteq> 0 \<Longrightarrow> dsub (num32 w) (Finite 1) = Finite (of_int (int (unat w) - 1))"
proof -
  assume "w \<noteq> (0 :: 32 word)"
  have "unat w < 4294967296"
    using size_bound [of w] by simp
  then have "\<bar>int (unat w) - 1\<bar> < 9007199254740992" by linarith
  also have "(9007199254740992 :: int) = 2 ^ 53" by simp
  finally have "fl (of_int (int (unat w) - 1)) = Finite (of_int (int (unat w) - 1))"
    by (rule fl_exact_int)
  moreover have "real (unat w) - 1 = of_int (int (unat w) - 1)" by simp
  ultimately show ?thesis by (simp only: num32_def dsub.simps)
qed

lemma size_ratio_finite:
  "d \<noteq> 0 \<Longrightarrow> \<exists>s. ddiv (num32 n) (num32 d) = Finite s"
proof -
  assume d: "d \<noteq> (0 :: 32 word)"
  define a where "a = real (unat n)"
  define b where "b = real (unat d)"
  have b: "1 \<le> b"
    unfolding b_def using size_pos [OF d] by linarith
  have "0 \<le> a"
    unfolding a_def by (rule of_nat_0_le_iff)
  moreover have "a < 2 ^ 32"
    unfolding a_def using size_bound [of n] by (metis of_nat_less_numeral_power_cancel_iff)
  ultimately have a: "0 \<le> a" "a < 2 ^ 32" .
  have "a * 1 \<le> a * b"
    using a(1) b by (intro mult_left_mono) simp_all
  then have "a / b \<le> a"
    using b by (simp add: divide_le_eq)
  moreover have "0 \<le> a / b"
    using a(1) b by simp
  ultimately have "\<bar>a / b\<bar> \<le> a" by simp
  also have "\<dots> \<le> 2 powi 1023"
    using a(2) by simp
  finally obtain s where "fl (a / b) = Finite s"
    using fl_finite by blast
  moreover from b have "b \<noteq> 0" by simp
  ultimately show ?thesis
    unfolding a_def b_def by (simp only: num32_def ddiv.simps if_False) blast
qed

lemma clamped_scaleRound:
  assumes "offsetDim \<noteq> 0" "naturalDim \<noteq> 0"
  shows "\<exists>x. clamped (scaleRound (Finite r) naturalDim offsetDim) naturalDim = Finite (of_int x) \<and>
       0 \<le> x \<and> x \<le> int (unat naturalDim) - 1 \<and>
       (\<forall>p. dmul (Finite r) (ddiv (num32 naturalDim) (num32 offsetDim)) = Finite p \<longrightarrow>
          x = max 0 (min \<lfloor>p + 1 / 2\<rfloor> (int (unat naturalDim) - 1)))"
proof -
  define ub where "ub = int (unat naturalDim) - 1"
  have ub: "dsub (num32 naturalDim) (Finite 1) = Finite (of_int ub)"
    unfolding ub_def using assms(2) by (rule size_minus_one)
  have "0 \<le> ub"
    using size_pos [OF assms(2)] unfolding ub_def by linarith
  obtain s where s: "ddiv (num32 naturalDim) (num32 offsetDim) = Finite s"
    using size_ratio_finite [OF assms(1)] by blast
  have prod: "dmul (Finite r) (Finite s) = fl (r * s)" by simp
  show ?thesis
  proof (cases "fl (r * s)")
    case (Finite p)
    have "clamped (scaleRound (Finite r) naturalDim offsetDim) naturalDim =
        Finite (of_int (max 0 (min \<lfloor>p + 1 / 2\<rfloor> ub)))"
      by (simp add: clamped_def scaleRound_def s Finite ub dmin_def dmax_def min_def max_def)
    with \<open>0 \<le> ub\<close> show ?thesis
      unfolding s prod Finite ub_def [symmetric] by auto
  next
    case PInf
    have "clamped (scaleRound (Finite r) naturalDim offsetDim) naturalDim = Finite (of_int ub)"
      using \<open>0 \<le> ub\<close> by (simp add: clamped_def scaleRound_def s PInf ub dmin_def dmax_def)
    with \<open>0 \<le> ub\<close> show ?thesis
      unfolding s prod PInf ub_def [symmetric] by auto
  next
    case NInf
    have "clamped (scaleRound (Finite r) naturalDim offsetDim) naturalDim = Finite (of_int 0)"
      by (simp add: clamped_def scaleRound_def s NInf ub dmin_def dmax_def)
    with \<open>0 \<le> ub\<close> show ?thesis
      unfolding s prod NInf ub_def [symmetric] by blast
  next
    case NaN
    then show ?thesis by (simp add: fl_not_NaN)
  qed
qed

lemma handleImageClick_inside:
  assumes "relativeX = dsub (dsub (clientX e) (rectLeft e)) (dsub (imgRectLeft e) (rectLeft e))"
    and "relativeY = dsub (dsub (clientY e) (rectTop e)) (dsub (imgRectTop e) (rectTop e))"
    and "dle (Finite 0) relativeX" "dle relativeX (num32 (offsetWidth img))"
    and "dle (Finite 0) relativeY" "dle relativeY (num32 (offsetHeight img))"
  shows "handleImageClick (Some img) clickPosition e =
     (if (case clickPosition of None \<Rightarrow> False
          | Some m \<Rightarrow> dless (dabs (dsub (displayX m) relativeX)) (Finite 10) \<and>
                     dless (dabs (dsub (displayY m) relativeY)) (Finite 10))
      then (None, Some (OnImageClick None None None))
      else (Some \<lparr>displayX = relativeX, displayY = relativeY,
                  naturalX = clamped (scaleRound relativeX (naturalWidth img) (offsetWidth img)) (naturalWidth img),
                  naturalY = clamped (scaleRound relativeY (naturalHeight img) (offsetHeight img)) (naturalHeight img)\<rparr>,
            Some (OnImageClick
                   (Some (clamped (scaleRound relativeX (naturalWidth img) (offsetWidth img)) (naturalWidth img)))
                   (Some (clamped (scaleRound relativeY (naturalHeight img) (offsetHeight img)) (naturalHeight img)))
                   (Some \<lparr>displayX = relativeX, displayY = relativeY,
                      naturalX = clamped (scaleRound relativeX (naturalWidth img) (offsetWidth img)) (naturalWidth img),
                      naturalY = clamped (scaleRound relativeY (naturalHeight img) (offsetHeight img)) (naturalHeight img)\<rparr>))))"
  using assms(3-6) unfolding assms(1,2) by (simp add: handleImageClick_def Let_def)

lemma fl_scale_400: "fl (681 / 400) = Finite (7667378365598269 / 2 ^ 52)"
  by (rule fl_eval [where e = 0]) (simp_all add: rne_def Let_def)

lemma fl_400_scaled: "fl (400 * (7667378365598269 / 2 ^ 52)) = Finite 681"
  by (rule fl_eval [where e = 9]) (simp_all add: rne_def Let_def)

lemma fl_280_scaled: "fl (280 * (7667378365598269 / 2 ^ 52)) = Finite (8386195087373107 / 2 ^ 44)"
  by (rule fl_eval [where e = 8]) (simp_all add: rne_def Let_def)

lemma fl_scale_312: "fl (681 / 312) = Finite (2457493065896881 / 2 ^ 50)"
  by (rule fl_eval [where e = 1]) (simp_all add: rne_def Let_def)

lemma fl_52_scaled: "fl (52 * (2457493065896881 / 2 ^ 50)) = Finite (7986852464164863 / 2 ^ 46)"
  by (rule fl_eval [where e = 6]) (simp_all add: rne_def Let_def)

lemma fl_tenth: "fl (3602879701896397 / 2 ^ 55) = Finite (3602879701896397 / 2 ^ 55)"
  by (rule fl_eval [where e = "- 4"]) (simp_all add: rne_def Let_def)

lemma fl_ten_point_one_minus_tenth:
  "fl (5685794529555251 / 2 ^ 49 - 3602879701896397 / 2 ^ 55) = Finite 10"
  by (rule fl_eval [where e = 3]) (simp_all add: rne_def Let_def)

text \<open>
  Claim C9, as the code has it: for an image whose display and natural dimensions are
  all at least 1 and a click whose computed position relative to the image passes the
  bounds test \<open>0 \<le> relative \<le> offsetDim\<close> on both axes (the edges included), each
  native coordinate is an integer in \<open>[0, naturalWidth - 1] \<times> [0, naturalHeight - 1]\<close>.
  It is the product \<open>relative * (naturalDim / offsetDim)\<close> as computed in double
  arithmetic, rounded to the nearest integer (halves up) and clamped. The handler
  either clears the marker or places the marker with exactly these coordinates; with
  no marker present it places it.
\<close>

theorem handleImageClick_native_in_range:
  assumes "relativeX = dsub (dsub (clientX e) (rectLeft e)) (dsub (imgRectLeft e) (rectLeft e))"
    and "relativeY = dsub (dsub (clientY e) (rectTop e)) (dsub (imgRectTop e) (rectTop e))"
    and "dle (Finite 0) relativeX" "dle relativeX (num32 (offsetWidth img))"
    and "dle (Finite 0) relativeY" "dle relativeY (num32 (offsetHeight img))"
    and "offsetWidth img \<noteq> 0" "offsetHeight img \<noteq> 0"
    and "naturalWidth img \<noteq> 0" "naturalHeight img \<noteq> 0"
  shows "\<exists>x y.
     0 \<le> x \<and> x \<le> int (unat (naturalWidth img)) - 1 \<and>
     0 \<le> y \<and> y \<le> int (unat (naturalHeight img)) - 1 \<and>
     (\<forall>p. dmul relativeX (ddiv (num32 (naturalWidth img)) (num32 (offsetWidth img))) = Finite p \<longrightarrow>
        x = max 0 (min \<lfloor>p + 1 / 2\<rfloor> (int (unat (naturalWidth img)) - 1))) \<and>
     (\<forall>p. dmul relativeY (ddiv (num32 (naturalHeight img)) (num32 (offsetHeight img))) = Finite p \<longrightarrow>
        y = max 0 (min \<lfloor>p + 1 / 2\<rfloor> (int (unat (naturalHeight img)) - 1))) \<and>
     (handleImageClick (Some img) clickPosition e = (None, Some (OnImageClick None None None)) \<or>
      handleImageClick (Some img) clickPosition e =
        (Some \<lparr>displayX = relativeX, displayY = relativeY,
                naturalX = Finite (of_int x), naturalY = Finite (of_int y)\<rparr>,
         Some (OnImageClick (Some (Finite (of_int x))) (Some (Finite (of_int y)))
                 (Some \<lparr>displayX = relativeX, displayY = relativeY,
                         naturalX = Finite (of_int x), naturalY = Finite (of_int y)\<rparr>)))) \<and>
     (clickPosition = None \<longrightarrow>
        fst (handleImageClick (Some img) clickPosition e) =
          Some \<lparr>displayX = relativeX, displayY = relativeY,
                 naturalX = Finite (of_int x), naturalY = Finite (of_int y)\<rparr>)"
proof -
  obtain rx where rx: "relativeX = Finite rx"
    using in_bounds_finite [OF assms(3,4)] by blast
  obtain ry where ry: "relativeY = Finite ry"
    using in_bounds_finite [OF assms(5,6)] by blast
  from clamped_scaleRound [OF assms(7) assms(9), of rx]
  obtain x where x:
    "clamped (scaleRound relativeX (naturalWidth img) (offsetWidth img)) (naturalWidth img) = Finite (of_int x)"
    "0 \<le> x" "x \<le> int (unat (naturalWidth img)) - 1"
    "\<forall>p. dmul relativeX (ddiv (num32 (naturalWidth img)) (num32 (offsetWidth img))) = Finite p \<longrightarrow>
        x = max 0 (min \<lfloor>p + 1 / 2\<rfloor> (int (unat (naturalWidth img)) - 1))"
    unfolding rx by blast
  from clamped_scaleRound [OF assms(8) assms(10), of ry]
  obtain y where y:
    "clamped (scaleRound relativeY (naturalHeight img) (offsetHeight img)) (naturalHeight img) = Finite (of_int y)"
    "0 \<le> y" "y \<le> int (unat (naturalHeight img)) - 1"
    "\<forall>p. dmul relativeY (ddiv (num32 (naturalHeight img)) (num32 (offsetHeight img))) = Finite p \<longrightarrow>
        y = max 0 (min \<lfloor>p + 1 / 2\<rfloor> (int (unat (naturalHeight img)) - 1))"
    unfolding ry by blast
  note step = handleImageClick_inside [OF assms(1-6), of clickPosition, unfolded x(1) y(1)]
  have outcome: "handleImageClick (Some img) clickPosition e = (None, Some (OnImageClick None None None)) \<or>
      handleImageClick (Some img) clickPosition e =
        (Some \<lparr>displayX = relativeX, displayY = relativeY,
                naturalX = Finite (of_int x), naturalY = Finite (of_int y)\<rparr>,
         Some (OnImageClick (Some (Finite (of_int x))) (Some (Finite (of_int y)))
                 (Some \<lparr>displayX = relativeX, displayY = relativeY,
                         naturalX = Finite (of_int x), naturalY = Finite (of_int y)\<rparr>)))"
    unfolding step by simp
  have fresh: "clickPosition = None \<longrightarrow>
        fst (handleImageClick (Some img) clickPosition e) =
          Some \<lparr>displayX = relativeX, displayY = relativeY,
                 naturalX = Finite (of_int x), naturalY = Finite (of_int y)\<rparr>"
    unfolding step by simp
  from x(2-4) y(2-4) outcome fresh show ?thesis by blast
qed

theorem handleImageClick_native_in_range_witness:
  "dle (Finite 0) (Finite 400) \<and> dle (Finite 400) (num32 400) \<and> (681 :: 32 word) \<noteq> 0 \<and>
   fst (handleImageClick (Some \<lparr>offsetWidth = 400, offsetHeight = 400, naturalWidth = 681, naturalHeight = 681\<rparr>)
          None
          \<lparr>clientX = Finite 500, clientY = Finite 300, rectLeft = Finite 50, rectTop = Finite 20, imgRectLeft = Finite 100, imgRectTop = Finite 20\<rparr>)
     = Some \<lparr>displayX = Finite 400, displayY = Finite 280, naturalX = Finite 680, naturalY = Finite 477\<rparr>"
proof -
  define img where "img = \<lparr>offsetWidth = 400, offsetHeight = 400, naturalWidth = 681, naturalHeight = 681\<rparr>"
  define e where "e = \<lparr>clientX = Finite 500, clientY = Finite 300, rectLeft = Finite 50, rectTop = Finite 20, imgRectLeft = Finite 100, imgRectTop = Finite 20\<rparr>"
  have rx: "Finite 400 = dsub (dsub (clientX e) (rectLeft e)) (dsub (imgRectLeft e) (rectLeft e))"
    and ry: "Finite 280 = dsub (dsub (clientY e) (rectTop e)) (dsub (imgRectTop e) (rectTop e))"
    by (simp_all add: e_def fl_ints)
  have inside: "dle (Finite 0) (Finite 400)" "dle (Finite 400) (num32 (offsetWidth img))"
      "dle (Finite 0) (Finite 280)" "dle (Finite 280) (num32 (offsetHeight img))"
    by (simp_all add: img_def num32_def)
  have dims: "offsetWidth img \<noteq> 0" "offsetHeight img \<noteq> 0" "naturalWidth img \<noteq> 0" "naturalHeight img \<noteq> 0"
    by (simp_all add: img_def)
  have px: "dmul (Finite 400) (ddiv (num32 (naturalWidth img)) (num32 (offsetWidth img))) = Finite 681"
    by (simp add: img_def num32_def fl_scale_400 [simplified] fl_400_scaled [simplified])
  have py: "dmul (Finite 280) (ddiv (num32 (naturalHeight img)) (num32 (offsetHeight img))) =
      Finite (8386195087373107 / 2 ^ 44)"
    by (simp add: img_def num32_def fl_scale_400 [simplified] fl_280_scaled [simplified])
  from handleImageClick_native_in_range [OF rx ry inside dims, of None]
  obtain x y where xy:
    "\<forall>p. dmul (Finite 400) (ddiv (num32 (naturalWidth img)) (num32 (offsetWidth img))) = Finite p \<longrightarrow>
        x = max 0 (min \<lfloor>p + 1 / 2\<rfloor> (int (unat (naturalWidth img)) - 1))"
    "\<forall>p. dmul (Finite 280) (ddiv (num32 (naturalHeight img)) (num32 (offsetHeight img))) = Finite p \<longrightarrow>
        y = max 0 (min \<lfloor>p + 1 / 2\<rfloor> (int (unat (naturalHeight img)) - 1))"
    "fst (handleImageClick (Some img) None e) =
       Some \<lparr>displayX = Finite 400, displayY = Finite 280,
              naturalX = Finite (of_int x), naturalY = Finite (of_int y)\<rparr>"
    by blast
  from xy(1) px have "x = max 0 (min \<lfloor>681 + 1 / 2 :: real\<rfloor> (int (unat (naturalWidth img)) - 1))"
    by blast
  then have x: "x = 680" by (simp add: img_def)
  from xy(2) py
  have "y = max 0 (min \<lfloor>8386195087373107 / 2 ^ 44 + 1 / 2 :: real\<rfloor> (int (unat (naturalHeight img)) - 1))"
    by blast
  then have y: "y = 477" by (simp add: img_def)
  from xy(3) inside(1,2) dims(3) show ?thesis
    unfolding x y img_def e_def by simp
qed

text \<open>
  Claim C9 as stated does not hold. For an image of natural size 0 (one that failed to
  load) the coordinate returned is 0, which is not in \<open>[0, -1]\<close>. For a 681-pixel image
  displayed 312 pixels wide and a click at 52, the exact scaled position is 113.5, which
  rounds to 114, while the product computed in doubles is just below 113.5 and the
  coordinate returned is 113.
\<close>

theorem handleImageClick_native_in_range_counterexample:
  "fst (handleImageClick
          (Some \<lparr>offsetWidth = 400, offsetHeight = 400, naturalWidth = 0, naturalHeight = 0\<rparr>)
          None
          \<lparr>clientX = Finite 52, clientY = Finite 52, rectLeft = Finite 0, rectTop = Finite 0, imgRectLeft = Finite 0, imgRectTop = Finite 0\<rparr>)
     = Some \<lparr>displayX = Finite 52, displayY = Finite 52, naturalX = Finite 0, naturalY = Finite 0\<rparr> \<and>
   \<not> (0 :: int) \<le> int (unat (0 :: 32 word)) - 1 \<and>
   fst (handleImageClick
          (Some \<lparr>offsetWidth = 312, offsetHeight = 312, naturalWidth = 681, naturalHeight = 681\<rparr>)
          None
          \<lparr>clientX = Finite 52, clientY = Finite 52, rectLeft = Finite 0, rectTop = Finite 0, imgRectLeft = Finite 0, imgRectTop = Finite 0\<rparr>)
     = Some \<lparr>displayX = Finite 52, displayY = Finite 52, naturalX = Finite 113, naturalY = Finite 113\<rparr> \<and>
   \<lfloor>52 * (681 / 312) + 1 / 2 :: real\<rfloor> = 114"
  by (simp add: handleImageClick_def scaleRound_def clamped_def num32_def dmin_def dmax_def Let_def
      fl_ints fl_scale_312 [simplified] fl_52_scaled [simplified])

text \<open>
  Claim C10, as the code has it: an in-bounds click whose computed differences to the
  existing marker's display position, \<open>Math.abs(displayX - relativeX)\<close> and
  \<open>Math.abs(displayY - relativeY)\<close> in double arithmetic, are both below 10 clears
  the marker. Hence, starting without a marker, a click places a marker at its display
  position, a second click at the same position clears it, and a third click at that
  position places the same marker again.
\<close>

theorem handleImageClick_toggle:
  assumes "relativeX = dsub (dsub (clientX e) (rectLeft e)) (dsub (imgRectLeft e) (rectLeft e))"
    and "relativeY = dsub (dsub (clientY e) (rectTop e)) (dsub (imgRectTop e) (rectTop e))"
    and "dle (Finite 0) relativeX" "dle relativeX (num32 (offsetWidth img))"
    and "dle (Finite 0) relativeY" "dle relativeY (num32 (offsetHeight img))"
  shows "(\<forall>m. dless (dabs (dsub (displayX m) relativeX)) (Finite 10) \<and>
              dless (dabs (dsub (displayY m) relativeY)) (Finite 10) \<longrightarrow>
            handleImageClick (Some img) (Some m) e = (None, Some (OnImageClick None None None))) \<and>
         (\<exists>m. handleImageClick (Some img) None e =
                 (Some m, Some (OnImageClick (Some (naturalX m)) (Some (naturalY m)) (Some m))) \<and>
              displayX m = relativeX \<and> displayY m = relativeY \<and>
              handleImageClick (Some img) (Some m) e = (None, Some (OnImageClick None None None)) \<and>
              handleImageClick (Some img) (fst (handleImageClick (Some img) (Some m) e)) e =
                (Some m, Some (OnImageClick (Some (naturalX m)) (Some (naturalY m)) (Some m))))"
proof -
  note step = handleImageClick_inside [OF assms]
  have rule: "\<forall>m. dless (dabs (dsub (displayX m) relativeX)) (Finite 10) \<and>
              dless (dabs (dsub (displayY m) relativeY)) (Finite 10) \<longrightarrow>
            handleImageClick (Some img) (Some m) e = (None, Some (OnImageClick None None None))"
    by (simp add: step)
  define m where "m = \<lparr>displayX = relativeX, displayY = relativeY,
      naturalX = clamped (scaleRound relativeX (naturalWidth img) (offsetWidth img)) (naturalWidth img),
      naturalY = clamped (scaleRound relativeY (naturalHeight img) (offsetHeight img)) (naturalHeight img)\<rparr>"
  have first: "handleImageClick (Some img) None e =
      (Some m, Some (OnImageClick (Some (naturalX m)) (Some (naturalY m)) (Some m)))"
    by (simp add: step m_def)
  have shown: "displayX m = relativeX" "displayY m = relativeY"
    by (simp_all add: m_def)
  obtain rx ry where r: "relativeX = Finite rx" "relativeY = Finite ry"
    using in_bounds_finite [OF assms(3,4)] in_bounds_finite [OF assms(5,6)] by blast
  have same: "dless (dabs (dsub relativeX relativeX)) (Finite 10)"
      "dless (dabs (dsub relativeY relativeY)) (Finite 10)"
    by (simp_all add: r fl_zero)
  have second: "handleImageClick (Some img) (Some m) e = (None, Some (OnImageClick None None None))"
    using rule shown same by simp
  have third: "handleImageClick (Some img) (fst (handleImageClick (Some img) (Some m) e)) e =
      (Some m, Some (OnImageClick (Some (naturalX m)) (Some (naturalY m)) (Some m)))"
    unfolding second using first by simp
  from rule first shown second third show ?thesis by blast
qed

theorem handleImageClick_toggle_witness:
  "dless (dabs (dsub (Finite 395) (Finite 400))) (Finite 10) \<and>
   handleImageClick (Some \<lparr>offsetWidth = 400, offsetHeight = 400, naturalWidth = 681, naturalHeight = 681\<rparr>)
     (Some \<lparr>displayX = Finite 395, displayY = Finite 285, naturalX = Finite 672, naturalY = Finite 485\<rparr>)
     \<lparr>clientX = Finite 500, clientY = Finite 300, rectLeft = Finite 50, rectTop = Finite 20, imgRectLeft = Finite 100, imgRectTop = Finite 20\<rparr>
     = (None, Some (OnImageClick None None None)) \<and>
   (\<exists>m. fst (handleImageClick (Some \<lparr>offsetWidth = 400, offsetHeight = 400, naturalWidth = 681, naturalHeight = 681\<rparr>)
          None
          \<lparr>clientX = Finite 500, clientY = Finite 300, rectLeft = Finite 50, rectTop = Finite 20, imgRectLeft = Finite 100, imgRectTop = Finite 20\<rparr>)
        = Some m)"
proof -
  define img where "img = \<lparr>offsetWidth = 400, offsetHeight = 400, naturalWidth = 681, naturalHeight = 681\<rparr>"
  define e where "e = \<lparr>clientX = Finite 500, clientY = Finite 300, rectLeft = Finite 50, rectTop = Finite 20, imgRectLeft = Finite 100, imgRectTop = Finite 20\<rparr>"
  define old where "old = \<lparr>displayX = Finite 395, displayY = Finite 285, naturalX = Finite 672, naturalY = Finite 485\<rparr>"
  have rx: "Finite 400 = dsub (dsub (clientX e) (rectLeft e)) (dsub (imgRectLeft e) (rectLeft e))"
    and ry: "Finite 280 = dsub (dsub (clientY e) (rectTop e)) (dsub (imgRectTop e) (rectTop e))"
    by (simp_all add: e_def fl_ints)
  have inside: "dle (Finite 0) (Finite 400)" "dle (Finite 400) (num32 (offsetWidth img))"
      "dle (Finite 0) (Finite 280)" "dle (Finite 280) (num32 (offsetHeight img))"
    by (simp_all add: img_def num32_def)
  note inst = handleImageClick_toggle [OF rx ry inside]
  have near: "dless (dabs (dsub (displayX old) (Finite 400))) (Finite 10) \<and>
      dless (dabs (dsub (displayY old) (Finite 280))) (Finite 10)"
    by (simp add: old_def fl_ints)
  from inst [THEN conjunct1] near
  have "handleImageClick (Some img) (Some old) e = (None, Some (OnImageClick None None None))"
    by blast
  moreover from inst [THEN conjunct2]
  have "\<exists>m. fst (handleImageClick (Some img) None e) = Some m"
    by force
  moreover from near have "dless (dabs (dsub (Finite 395) (Finite 400))) (Finite 10)"
    by (simp add: old_def)
  ultimately show ?thesis
    unfolding img_def e_def old_def by blast
qed

text \<open>
  Claim C10 as stated, with exact differences, does not hold: for a marker at display
  position (10.1, 5) and a click at (0.1, 5) the exact distance on the x axis is below
  10, but the computed difference rounds to 10, the test \<open>< 10\<close> fails and the marker
  is replaced by one at the click position.
\<close>

theorem handleImageClick_toggle_counterexample:
  "map_option displayX
     (fst (handleImageClick (Some \<lparr>offsetWidth = 400, offsetHeight = 400, naturalWidth = 681, naturalHeight = 681\<rparr>)
        (Some \<lparr>displayX = Finite (5685794529555251 / 2 ^ 49), displayY = Finite 5,
                naturalX = Finite 17, naturalY = Finite 9\<rparr>)
        \<lparr>clientX = Finite (3602879701896397 / 2 ^ 55), clientY = Finite 5, rectLeft = Finite 0,
          rectTop = Finite 0, imgRectLeft = Finite 0, imgRectTop = Finite 0\<rparr>))
     = Some (Finite (3602879701896397 / 2 ^ 55)) \<and>
   \<bar>5685794529555251 / 2 ^ 49 - 3602879701896397 / 2 ^ 55\<bar> < (10 :: real) \<and>
   \<bar>5 - 5\<bar> < (10 :: real)"
  by (simp add: handleImageClick_def num32_def Let_def fl_ints fl_tenth [simplified]
      fl_ten_point_one_minus_tenth [simplified])

end
